theory Spec2Isabelle
  imports Main "HOL-Library.Multiset" "HOL-Library.Word"
begin

section \<open>The Solidity compile tasks of hardhat-core\<close>

text \<open>
  The development follows \<^verbatim>\<open>builtin-tasks/compile.ts\<close>: every subtask the
  properties below talk about is a function of this theory under the name of its task
  constant. Collaborators whose code lives elsewhere (the compiler downloader, the artifact
  store, the compiler processes, the files cache class, the semver library) are either fields
  of the record \<open>Env\<close> or small definitions that say in their comment where they
  come from.
\<close>

subsection \<open>Semantic versions\<close>

text \<open>
  \<^verbatim>\<open>semver.compare\<close> and \<^verbatim>\<open>semver.lt\<close> belong to the third-party
  semver package. Versions are held parsed (major, minor, patch and the prerelease
  identifiers; build metadata never takes part in a comparison), and the comparison is the
  package's algorithm: \<^verbatim>\<open>compareMain || comparePre\<close>, identifiers compared by
  \<^verbatim>\<open>compareIdentifiers\<close>.

  A prerelease identifier is numeric, one that passes the test \<^verbatim>\<open>/^[0-9]+$/\<close> of
  \<^verbatim>\<open>compareIdentifiers\<close>, or alphanumeric, a string that does not pass it. A
  numeric identifier is a number below \<open>2 ^ 53\<close> here: up to there the conversion to
  a JavaScript number that \<^verbatim>\<open>compareIdentifiers\<close> makes is exact. The package
  keeps an all-digit identifier from \<open>2 ^ 53 - 1\<close> on as a string and compares two of
  them as doubles, so that from \<open>2 ^ 53\<close> on different identifiers can compare equal;
  \<^verbatim>\<open>compare\<close> is then not transitive, and what \<^verbatim>\<open>Array.prototype.sort\<close>
  does with such a comparator is left to the implementation. Those versions are outside
  this type.
\<close>

definition numeric :: "string \<Rightarrow> bool" where
  "numeric s = (s \<noteq> [] \<and> (\<forall>c \<in> set s. c \<in> set ''0123456789''))"

typedef AlphanumericString = "{s :: string. \<not> numeric s}"
  by (rule exI [of _ "[]"]) (simp add: numeric_def)

datatype Identifier = Numeric "53 word" | Alphanumeric AlphanumericString

record SemVer =
  major :: nat
  minor :: nat
  patch :: nat
  prerelease :: "Identifier list"

text \<open>JavaScript's \<^verbatim>\<open>a < b\<close> on strings: lexicographic on the code units.\<close>

fun js_string_less :: "string \<Rightarrow> string \<Rightarrow> bool" where
  "js_string_less [] [] = False"
| "js_string_less [] (y # ys) = True"
| "js_string_less (x # xs) [] = False"
| "js_string_less (x # xs) (y # ys) =
     (if x = y then js_string_less xs ys else (of_char x :: nat) < of_char y)"

definition compareNumbers :: "nat \<Rightarrow> nat \<Rightarrow> int" where
  "compareNumbers a b = (if a = b then 0 else if a < b then -1 else 1)"

fun compareIdentifiers :: "Identifier \<Rightarrow> Identifier \<Rightarrow> int" where
  "compareIdentifiers (Numeric a) (Numeric b) = compareNumbers (unat a) (unat b)"
| "compareIdentifiers (Numeric a) (Alphanumeric b) = -1"
| "compareIdentifiers (Alphanumeric a) (Numeric b) = 1"
| "compareIdentifiers (Alphanumeric a) (Alphanumeric b) =
     (if a = b then 0
      else if js_string_less (Rep_AlphanumericString a) (Rep_AlphanumericString b) then -1
      else 1)"

definition compareMain :: "SemVer \<Rightarrow> SemVer \<Rightarrow> int" where
  "compareMain a b =
     (if compareNumbers (major a) (major b) \<noteq> 0 then compareNumbers (major a) (major b)
      else if compareNumbers (minor a) (minor b) \<noteq> 0 then compareNumbers (minor a) (minor b)
      else compareNumbers (patch a) (patch b))"

text \<open>The \<^verbatim>\<open>do ... while (++i)\<close> loop of \<^verbatim>\<open>comparePre\<close>, on the two
  identifier lists from position \<open>i\<close> on.\<close>

fun comparePreLoop :: "Identifier list \<Rightarrow> Identifier list \<Rightarrow> int" where
  "comparePreLoop [] [] = 0"
| "comparePreLoop (a # as) [] = 1"
| "comparePreLoop [] (b # bs) = -1"
| "comparePreLoop (a # as) (b # bs) =
     (if a = b then comparePreLoop as bs else compareIdentifiers a b)"

definition comparePre :: "SemVer \<Rightarrow> SemVer \<Rightarrow> int" where
  "comparePre a b =
     (if prerelease a \<noteq> [] \<and> prerelease b = [] then -1
      else if prerelease a = [] \<and> prerelease b \<noteq> [] then 1
      else if prerelease a = [] \<and> prerelease b = [] then 0
      else comparePreLoop (prerelease a) (prerelease b))"

definition semver_compare :: "SemVer \<Rightarrow> SemVer \<Rightarrow> int" where
  "semver_compare a b =
     (if compareMain a b \<noteq> 0 then compareMain a b else comparePre a b)"

definition semver_lt :: "SemVer \<Rightarrow> SemVer \<Rightarrow> bool" where
  "semver_lt a b = (semver_compare a b < 0)"

subsection \<open>Data\<close>

text \<open>A resolved file; the fields of \<^verbatim>\<open>file.content\<close> are held flat under a \<open>content_\<close> prefix.\<close>

record ResolvedFile =
  sourceName :: string
  absolutePath :: string
  contentHash :: string
  lastModificationDate :: int
  content_rawContent :: string
  content_imports :: "string list"
  content_versionPragmas :: "string list"

record SolcConfig =
  version :: SemVer
  settings :: string

text \<open>The \<^verbatim>\<open>CompilationJob\<close> interface: its three methods as fields.\<close>

record CompilationJob =
  getSolcConfig :: SolcConfig
  getResolvedFiles :: "ResolvedFile list"
  emitsArtifacts :: "ResolvedFile \<Rightarrow> bool"

record Diagnostic =
  severity :: string
  errorType :: string
  message :: string
  formattedMessage :: string

record CompilerInput =
  language :: string
  sources :: "(string \<times> string) list"
  input_settings :: string

text \<open>
  The compiler's output: \<open>errors\<close> and \<open>contracts\<close> may both be absent. The
  contracts of a source name are the entries of its object in insertion order
  (\<^verbatim>\<open>Object.entries\<close>), each a contract name with its output.
\<close>

record CompilerOutput =
  errors :: "Diagnostic list option"
  contracts :: "(string \<rightharpoonup> (string \<times> string) list) option"

datatype CompilerPlatform = LINUX | WINDOWS | MACOS | WASM

record SolcBuild =
  compilerPath :: string
  isSolcJs :: bool
  build_version :: SemVer
  longVersion :: string

subsection \<open>Errors and promises\<close>

text \<open>
  What the tasks throw: the \<^verbatim>\<open>HardhatError\<close>s under the name of their descriptor
  (the one \<^verbatim>\<open>assertHardhatInvariant\<close> throws carries its message), and the
  \<^verbatim>\<open>TypeError\<close> of JavaScript for a method call on \<^verbatim>\<open>undefined\<close>.
\<close>

datatype Thrown =
    CANT_GET_COMPILER SemVer
  | COMPILE_TASK_UNSUPPORTED_SOLC_VERSION SemVer SemVer
  | COMPILE_FAILURE
  | COMPILATION_JOBS_CREATION_FAILURE
  | INVARIANT_VIOLATED string
  | TypeError string

text \<open>
  What awaiting a task gives: its value, the error it threw, or nothing at all when the
  promise never settles.
\<close>

datatype 'a Outcome = Returns 'a | Throws Thrown | Pending

subsection \<open>Compiler diagnostics\<close>

definition hasCompilationErrors :: "CompilerOutput \<Rightarrow> bool" where
  "hasCompilationErrors output =
     (case errors output of
        None \<Rightarrow> False
      | Some es \<Rightarrow> list_ex (\<lambda>x. severity x = ''error'') es)"

text \<open>
  \<^verbatim>\<open>TASK_COMPILE_SOLIDITY_CHECK_ERRORS\<close>. The subtask it runs first,
  \<^verbatim>\<open>TASK_COMPILE_SOLIDITY_LOG_COMPILATION_ERRORS\<close>, prints the diagnostics to the
  console (each has its four fields here) and returns at once on an output without
  \<open>errors\<close>.
\<close>

definition TASK_COMPILE_SOLIDITY_CHECK_ERRORS :: "CompilerOutput \<Rightarrow> bool \<Rightarrow> unit Outcome" where
  "TASK_COMPILE_SOLIDITY_CHECK_ERRORS output quiet =
     (if hasCompilationErrors output then Throws COMPILE_FAILURE else Returns ())"

subsection \<open>The Solidity files cache\<close>

record CacheEntry =
  entry_lastModificationDate :: int
  entry_contentHash :: string
  entry_sourceName :: string
  entry_solcConfig :: SolcConfig
  entry_imports :: "string list"
  entry_versionPragmas :: "string list"
  entry_artifacts :: "string list"

text \<open>
  Modelled from the spec: the class \<^verbatim>\<open>SolidityFilesCache\<close> of
  \<^verbatim>\<open>builtin-tasks/utils/solidity-files-cache\<close> is not among the sources. Its state
  is the \<open>files\<close> object of the cache document, entries keyed by absolute path.
\<close>

type_synonym SolidityFilesCache = "string \<rightharpoonup> CacheEntry"

text \<open>Modelled from the spec: the entry stored for a path, if any.\<close>

definition getEntry :: "SolidityFilesCache \<Rightarrow> string \<Rightarrow> CacheEntry option" where
  "getEntry cache path = cache path"

text \<open>Modelled from the spec: dropping the entry of a path.\<close>

definition removeEntry :: "SolidityFilesCache \<Rightarrow> string \<Rightarrow> SolidityFilesCache" where
  "removeEntry cache path = cache(path := None)"

text \<open>Modelled from the spec: storing (or replacing) the entry of a path.\<close>

definition addFile :: "SolidityFilesCache \<Rightarrow> string \<Rightarrow> CacheEntry \<Rightarrow> SolidityFilesCache" where
  "addFile cache path entry = cache(path \<mapsto> entry)"

text \<open>
  Modelled from the spec: \<^verbatim>\<open>has_file_changed(path, content_hash, solc_config?)\<close> of
  section 4.5 is true when no entry exists for the path, when the stored content hash
  differs, or when a config is provided and differs from the stored one.
\<close>

definition hasFileChanged ::
  "SolidityFilesCache \<Rightarrow> string \<Rightarrow> string \<Rightarrow> SolcConfig option \<Rightarrow> bool" where
  "hasFileChanged cache path hash solcConfig =
     (case getEntry cache path of
        None \<Rightarrow> True
      | Some cacheEntry \<Rightarrow>
          if entry_contentHash cacheEntry \<noteq> hash then True
          else (case solcConfig of
                  None \<Rightarrow> False
                | Some config \<Rightarrow> config \<noteq> entry_solcConfig cacheEntry))"

text \<open>
  Modelled from the spec: \<^verbatim>\<open>getFullyQualifiedName\<close> of
  \<^verbatim>\<open>utils/contract-names\<close> is not among the sources; the fully qualified name the
  artifact store is asked about joins the source name and the contract name.
\<close>

definition getFullyQualifiedName :: "string \<Rightarrow> string \<Rightarrow> string" where
  "getFullyQualifiedName sn contractName = sn @ '':'' @ contractName"

subsection \<open>Which jobs the cache lets through\<close>

text \<open>
  The loop of \<^verbatim>\<open>needsCompilation\<close>. Besides its answer it hands back the
  arguments of every \<^verbatim>\<open>cache.hasFileChanged\<close> call it made, oldest first: a path, a
  content hash and the optional config.
\<close>

type_synonym HasFileChangedCall = "string \<times> string \<times> SolcConfig option"

fun needsCompilationLoop ::
  "CompilationJob \<Rightarrow> SolidityFilesCache \<Rightarrow> ResolvedFile list \<Rightarrow> HasFileChangedCall list
     \<Rightarrow> bool \<times> HasFileChangedCall list" where
  "needsCompilationLoop job cache [] calls = (False, calls)"
| "needsCompilationLoop job cache (file # files) calls =
     (let solcConfig =
            (if emitsArtifacts job file then Some (getSolcConfig job) else None);
          hasChanged =
            hasFileChanged cache (absolutePath file) (contentHash file) solcConfig;
          calls' = calls @ [(absolutePath file, contentHash file, solcConfig)]
      in if hasChanged then (True, calls')
         else needsCompilationLoop job cache files calls')"

definition needsCompilation :: "CompilationJob \<Rightarrow> SolidityFilesCache \<Rightarrow> bool" where
  "needsCompilation job cache =
     fst (needsCompilationLoop job cache (getResolvedFiles job) [])"

definition hasFileChangedCalls ::
  "CompilationJob \<Rightarrow> SolidityFilesCache \<Rightarrow> HasFileChangedCall list" where
  "hasFileChangedCalls job cache =
     snd (needsCompilationLoop job cache (getResolvedFiles job) [])"

text \<open>
  \<^verbatim>\<open>TASK_COMPILE_SOLIDITY_FILTER_COMPILATION_JOBS\<close>; the cache is an optional
  parameter of the subtask, and the invariant asserted first throws when it is missing.
\<close>

definition TASK_COMPILE_SOLIDITY_FILTER_COMPILATION_JOBS ::
  "CompilationJob list \<Rightarrow> bool \<Rightarrow> SolidityFilesCache option \<Rightarrow> CompilationJob list Outcome" where
  "TASK_COMPILE_SOLIDITY_FILTER_COMPILATION_JOBS compilationJobs force solidityFilesCache =
     (case solidityFilesCache of
        None \<Rightarrow>
          Throws (INVARIANT_VIOLATED
            ''The implementation of this task needs a defined solidityFilesCache'')
      | Some cache \<Rightarrow>
          if force then Returns compilationJobs
          else Returns (filter (\<lambda>job. needsCompilation job cache) compilationJobs))"

subsection \<open>Invalidating entries whose artifacts are gone\<close>

text \<open>
  The inner loop of \<^verbatim>\<open>invalidateCacheMissingArtifacts\<close>: the first emitted artifact
  that the artifact store does not have removes the entry and ends the loop.
  \<open>artifactExists\<close> is the store's answer for a fully qualified name.
\<close>

fun invalidateEntryLoop ::
  "(string \<Rightarrow> bool) \<Rightarrow> ResolvedFile \<Rightarrow> string list \<Rightarrow> SolidityFilesCache
     \<Rightarrow> SolidityFilesCache" where
  "invalidateEntryLoop artifactExists file [] cache = cache"
| "invalidateEntryLoop artifactExists file (emittedArtifact # rest) cache =
     (if \<not> artifactExists (getFullyQualifiedName (sourceName file) emittedArtifact)
      then removeEntry cache (absolutePath file)
      else invalidateEntryLoop artifactExists file rest cache)"

fun invalidateCacheMissingArtifacts ::
  "SolidityFilesCache \<Rightarrow> (string \<Rightarrow> bool) \<Rightarrow> ResolvedFile list \<Rightarrow> SolidityFilesCache" where
  "invalidateCacheMissingArtifacts cache artifactExists [] = cache"
| "invalidateCacheMissingArtifacts cache artifactExists (file # resolvedFiles) =
     (case getEntry cache (absolutePath file) of
        None \<Rightarrow> invalidateCacheMissingArtifacts cache artifactExists resolvedFiles
      | Some cacheEntry \<Rightarrow>
          invalidateCacheMissingArtifacts
            (invalidateEntryLoop artifactExists file (entry_artifacts cacheEntry) cache)
            artifactExists resolvedFiles)"

subsection \<open>The world outside the tasks\<close>

text \<open>
  How a child process ends: it exits, with its exit code (none when a signal ended it)
  after some milliseconds, or it never exits.
\<close>

datatype ProcessExit = Exited "int option" nat | NeverExits

record Artifact =
  artifact_sourceName :: string
  artifact_contractName :: string
  artifact_output :: string

text \<open>
  Modelled from the spec: \<^verbatim>\<open>getArtifactFromContractOutput\<close> of
  \<^verbatim>\<open>internal/artifacts\<close> is not among the sources; the artifact is the per-contract
  build output under its source name and contract name.
\<close>

definition getArtifactFromContractOutput :: "string \<Rightarrow> string \<Rightarrow> string \<Rightarrow> Artifact" where
  "getArtifactFromContractOutput sn contractName contractOutput =
     \<lparr>artifact_sourceName = sn, artifact_contractName = contractName,
      artifact_output = contractOutput\<rparr>"

text \<open>
  Modelled from the spec: \<^verbatim>\<open>getInputFromCompilationJob\<close> of
  \<^verbatim>\<open>internal/solidity/compiler/compiler-input\<close> is not among the sources; section 4.7
  gives the standard JSON input as the language, the source names with their content, and
  the settings of the job's config.
\<close>

definition getInputFromCompilationJob :: "CompilationJob \<Rightarrow> CompilerInput" where
  "getInputFromCompilationJob job =
     \<lparr>language = ''Solidity'',
      sources = map (\<lambda>file. (sourceName file, content_rawContent file)) (getResolvedFiles job),
      input_settings = settings (getSolcConfig job)\<rparr>"

datatype CompilationJobCreationErrorReason =
    NO_COMPATIBLE_SOLC_VERSION_FOUND
  | INCOMPATIBLE_OVERRIDEN_SOLC_VERSION
  | DIRECTLY_IMPORTS_INCOMPATIBLE_FILE
  | INDIRECTLY_IMPORTS_INCOMPATIBLE_FILE
  | OTHER_ERROR

record CompilationJobCreationError =
  reason :: CompilationJobCreationErrorReason
  error_file :: ResolvedFile

text \<open>
  What the tasks do to the world, in the order it happens: asking a downloader for the
  compiler of a version (the flag is its \<^verbatim>\<open>forceSolcJs\<close> option), running a command
  with \<^verbatim>\<open>child_process.exec\<close>, running one of the two compilers on an input, the
  writes and removals of the artifact store, and each run of the job-compiling subtask with
  its job and index. Pure queries and console output are not recorded.
\<close>

datatype Event =
    GetDownloadedCompilerPath bool SemVer
  | Exec string
  | RunSolc string CompilerInput
  | RunSolcJs string CompilerInput
  | SaveBuildInfo SemVer string CompilerInput CompilerOutput
  | SaveArtifactAndDebugFile Artifact string
  | RemoveObsoleteArtifacts
  | RemoveObsoleteBuildInfos
  | CompileJob CompilationJob nat

record World =
  trace :: "Event list"
  cacheFile :: SolidityFilesCache

text \<open>
  What the collaborators answer; their code is not among the sources, and each of them
  always answers here. The downloader gives the build of a version (its long version and
  platform) and the path of the downloaded compiler with its platform, if it could get
  one; \<open>exec\<close> tells how a command line ends; the compilers map an input to an output;
  \<open>saveBuildInfo\<close> gives the path of the build info it wrote; \<open>artifactExists\<close>
  tells whether the store has the artifact of a fully qualified name; the dependency graph
  gives the resolved files and, per connected component, the jobs and errors of job
  creation; \<open>mergeCompilationJobsWithoutBug\<close> is the merge of
  \<^verbatim>\<open>internal/solidity/compilation-job\<close>.
\<close>

record Env =
  getCompilerBuild :: "SemVer \<Rightarrow> string \<times> CompilerPlatform"
  getDownloadedCompilerPath :: "bool \<Rightarrow> SemVer \<Rightarrow> (string \<times> CompilerPlatform) option"
  exec :: "string \<Rightarrow> ProcessExit"
  nativeCompile :: "string \<Rightarrow> CompilerInput \<Rightarrow> CompilerOutput"
  solcjsCompile :: "string \<Rightarrow> CompilerInput \<Rightarrow> CompilerOutput"
  saveBuildInfo :: "SemVer \<Rightarrow> string \<Rightarrow> CompilerInput \<Rightarrow> CompilerOutput \<Rightarrow> string"
  artifactExists :: "string \<Rightarrow> bool"
  graphResolvedFiles :: "ResolvedFile list"
  connectedComponentsJobs ::
    "(CompilationJob list \<times> CompilationJobCreationError list) list"
  mergeCompilationJobsWithoutBug :: "CompilationJob list \<Rightarrow> CompilationJob list"

subsection \<open>Tasks\<close>

text \<open>
  An asynchronous task takes the world and gives back what awaiting it gives, with the
  world as it left it. \<open>andThen\<close> is \<^verbatim>\<open>await\<close> followed by the rest of the body: an
  error thrown or a promise that never settles ends the body there.
\<close>

type_synonym 'a Task = "World \<Rightarrow> 'a Outcome \<times> World"

definition ret :: "'a \<Rightarrow> 'a Task" where
  "ret x w = (Returns x, w)"

definition raise :: "Thrown \<Rightarrow> 'a Task" where
  "raise e w = (Throws e, w)"

definition emit :: "Event \<Rightarrow> unit Task" where
  "emit ev w = (Returns (), w\<lparr>trace := trace w @ [ev]\<rparr>)"

definition andThen :: "'a Task \<Rightarrow> ('a \<Rightarrow> 'b Task) \<Rightarrow> 'b Task" where
  "andThen m f w =
     (case m w of
        (Returns x, w') \<Rightarrow> f x w'
      | (Throws e, w') \<Rightarrow> (Throws e, w')
      | (Pending, w') \<Rightarrow> (Pending, w'))"

definition liftOutcome :: "'a Outcome \<Rightarrow> 'a Task" where
  "liftOutcome out w = (out, w)"

subsection \<open>Getting a compiler\<close>

text \<open>
  \<^verbatim>\<open>checkSolcBinary\<close>: the promise resolves in the handler of the process's
  \<^verbatim>\<open>exit\<close> event, with \<^verbatim>\<open>code === 0\<close>; \<^verbatim>\<open>exec\<close> is called without options.
\<close>

definition checkSolcBinary :: "Env \<Rightarrow> string \<Rightarrow> bool Task" where
  "checkSolcBinary env solcPath =
     andThen (emit (Exec (solcPath @ '' --version''))) (\<lambda>_.
       case exec env (solcPath @ '' --version'') of
         Exited code elapsed \<Rightarrow> ret (code = Some 0)
       | NeverExits \<Rightarrow> (\<lambda>w. (Pending, w)))"

text \<open>The three local variables of \<^verbatim>\<open>TASK_COMPILE_SOLIDITY_GET_SOLC_BUILD\<close>.\<close>

record SolcBuildLocals =
  var_compilerPath :: "string option"
  var_platform :: "CompilerPlatform option"
  var_nativeBinaryFailed :: bool

definition TASK_COMPILE_SOLIDITY_GET_SOLC_BUILD :: "Env \<Rightarrow> bool \<Rightarrow> SemVer \<Rightarrow> SolcBuild Task" where
  "TASK_COMPILE_SOLIDITY_GET_SOLC_BUILD env quiet solcVersion =
     (let (buildLongVersion, desiredPlatform) = getCompilerBuild env solcVersion in
      andThen (emit (GetDownloadedCompilerPath False solcVersion)) (\<lambda>_.
      andThen
        (case getDownloadedCompilerPath env False solcVersion of
           None \<Rightarrow>
             if desiredPlatform = WASM then raise (CANT_GET_COMPILER solcVersion)
             else ret \<lparr>var_compilerPath = None, var_platform = None,
                        var_nativeBinaryFailed = True\<rparr>
         | Some (resultPath, resultPlatform) \<Rightarrow>
             if resultPlatform \<noteq> WASM then
               andThen (checkSolcBinary env resultPath) (\<lambda>solcBinaryWorks.
                 ret \<lparr>var_compilerPath = Some resultPath, var_platform = None,
                      var_nativeBinaryFailed = (\<not> solcBinaryWorks)\<rparr>)
             else ret \<lparr>var_compilerPath = Some resultPath, var_platform = None,
                        var_nativeBinaryFailed = False\<rparr>)
        (\<lambda>locals.
      andThen
        (if var_nativeBinaryFailed locals then
           andThen (emit (GetDownloadedCompilerPath True solcVersion)) (\<lambda>_.
             case getDownloadedCompilerPath env True solcVersion of
               None \<Rightarrow> raise (CANT_GET_COMPILER solcVersion)
             | Some (solcjsPath, solcjsPlatform) \<Rightarrow>
                 ret (locals\<lparr>var_compilerPath := Some solcjsPath,
                             var_platform := Some WASM\<rparr>))
         else ret locals)
        (\<lambda>locals.
           let platformIsWasm = (var_platform locals = Some WASM) in
           case var_compilerPath locals of
             None \<Rightarrow>
               raise (INVARIANT_VIOLATED ''A compilerPath should be defined at this point'')
           | Some definedPath \<Rightarrow>
               ret \<lparr>compilerPath = definedPath, isSolcJs = platformIsWasm,
                    build_version = solcVersion, longVersion = buildLongVersion\<rparr>))))"

subsection \<open>Running a compiler\<close>

definition TASK_COMPILE_SOLIDITY_RUN_SOLCJS :: "Env \<Rightarrow> CompilerInput \<Rightarrow> string \<Rightarrow> CompilerOutput Task" where
  "TASK_COMPILE_SOLIDITY_RUN_SOLCJS env input solcJsPath =
     andThen (emit (RunSolcJs solcJsPath input)) (\<lambda>_. ret (solcjsCompile env solcJsPath input))"

definition TASK_COMPILE_SOLIDITY_RUN_SOLC :: "Env \<Rightarrow> CompilerInput \<Rightarrow> string \<Rightarrow> CompilerOutput Task" where
  "TASK_COMPILE_SOLIDITY_RUN_SOLC env input solcPath =
     andThen (emit (RunSolc solcPath input)) (\<lambda>_. ret (nativeCompile env solcPath input))"

definition COMPILE_TASK_FIRST_SOLC_VERSION_SUPPORTED :: SemVer where
  "COMPILE_TASK_FIRST_SOLC_VERSION_SUPPORTED =
     \<lparr>major = 0, minor = 4, patch = 11, prerelease = []\<rparr>"

text \<open>
  \<^verbatim>\<open>TASK_COMPILE_SOLIDITY_LOG_RUN_COMPILER_START\<close> starts by reading
  \<^verbatim>\<open>compilationJobs[compilationJobIndex].getSolcConfig().version\<close>, a
  \<^verbatim>\<open>TypeError\<close> when the index is past the end of the list; the rest of it counts
  files and prints to the console.
\<close>

definition TASK_COMPILE_SOLIDITY_LOG_RUN_COMPILER_START ::
  "CompilationJob \<Rightarrow> CompilationJob list \<Rightarrow> nat \<Rightarrow> bool \<Rightarrow> unit Task" where
  "TASK_COMPILE_SOLIDITY_LOG_RUN_COMPILER_START compilationJob compilationJobs
       compilationJobIndex quiet =
     (if compilationJobIndex < length compilationJobs then ret ()
      else raise (TypeError ''Cannot read properties of undefined (reading getSolcConfig)''))"

definition TASK_COMPILE_SOLIDITY_LOG_RUN_COMPILER_END ::
  "CompilationJob \<Rightarrow> CompilationJob list \<Rightarrow> nat \<Rightarrow> CompilerOutput \<Rightarrow> bool \<Rightarrow> unit Task" where
  "TASK_COMPILE_SOLIDITY_LOG_RUN_COMPILER_END compilationJob compilationJobs
       compilationJobIndex output quiet = ret ()"

definition TASK_COMPILE_SOLIDITY_COMPILE_SOLC ::
  "Env \<Rightarrow> CompilerInput \<Rightarrow> bool \<Rightarrow> SemVer \<Rightarrow> CompilationJob \<Rightarrow> CompilationJob list \<Rightarrow> nat
     \<Rightarrow> (CompilerOutput \<times> SolcBuild) Task" where
  "TASK_COMPILE_SOLIDITY_COMPILE_SOLC env input quiet solcVersion compilationJob
       compilationJobs compilationJobIndex =
     (if semver_lt solcVersion COMPILE_TASK_FIRST_SOLC_VERSION_SUPPORTED then
        raise (COMPILE_TASK_UNSUPPORTED_SOLC_VERSION solcVersion
                 COMPILE_TASK_FIRST_SOLC_VERSION_SUPPORTED)
      else
        andThen (TASK_COMPILE_SOLIDITY_GET_SOLC_BUILD env quiet solcVersion) (\<lambda>solcBuild.
        andThen
          (TASK_COMPILE_SOLIDITY_LOG_RUN_COMPILER_START compilationJob compilationJobs
             compilationJobIndex quiet)
          (\<lambda>_.
        andThen
          (if isSolcJs solcBuild
           then TASK_COMPILE_SOLIDITY_RUN_SOLCJS env input (compilerPath solcBuild)
           else TASK_COMPILE_SOLIDITY_RUN_SOLC env input (compilerPath solcBuild))
          (\<lambda>output.
        andThen
          (TASK_COMPILE_SOLIDITY_LOG_RUN_COMPILER_END compilationJob compilationJobs
             compilationJobIndex output quiet)
          (\<lambda>_. ret (output, solcBuild))))))"

definition TASK_COMPILE_SOLIDITY_COMPILE ::
  "Env \<Rightarrow> CompilerInput \<Rightarrow> bool \<Rightarrow> SemVer \<Rightarrow> CompilationJob \<Rightarrow> CompilationJob list \<Rightarrow> nat
     \<Rightarrow> (CompilerOutput \<times> SolcBuild) Task" where
  "TASK_COMPILE_SOLIDITY_COMPILE env input quiet solcVersion compilationJob compilationJobs
       compilationJobIndex =
     TASK_COMPILE_SOLIDITY_COMPILE_SOLC env input quiet solcVersion compilationJob
       compilationJobs compilationJobIndex"

subsection \<open>Emitting artifacts\<close>

definition TASK_COMPILE_SOLIDITY_GET_ARTIFACT_FROM_COMPILATION_OUTPUT ::
  "string \<Rightarrow> string \<Rightarrow> string \<Rightarrow> Artifact Task" where
  "TASK_COMPILE_SOLIDITY_GET_ARTIFACT_FROM_COMPILATION_OUTPUT sn contractName contractOutput =
     ret (getArtifactFromContractOutput sn contractName contractOutput)"

text \<open>\<^verbatim>\<open>Object.entries(output.contracts?.[file.sourceName] ?? {})\<close>\<close>

definition contractEntries :: "CompilerOutput \<Rightarrow> string \<Rightarrow> (string \<times> string) list" where
  "contractEntries output sn =
     (case contracts output of
        None \<Rightarrow> []
      | Some byName \<Rightarrow> (case byName sn of None \<Rightarrow> [] | Some entries \<Rightarrow> entries))"

text \<open>The inner loop of the task, over the contracts of one file.\<close>

fun emitContractsLoop ::
  "string \<Rightarrow> string \<Rightarrow> (string \<times> string) list \<Rightarrow> string list \<Rightarrow> string list Task" where
  "emitContractsLoop sn pathToBuildInfo [] artifactsEmitted = ret artifactsEmitted"
| "emitContractsLoop sn pathToBuildInfo ((contractName, contractOutput) # rest)
       artifactsEmitted =
     andThen
       (TASK_COMPILE_SOLIDITY_GET_ARTIFACT_FROM_COMPILATION_OUTPUT sn contractName
          contractOutput)
       (\<lambda>artifact.
     andThen (emit (SaveArtifactAndDebugFile artifact pathToBuildInfo)) (\<lambda>_.
       emitContractsLoop sn pathToBuildInfo rest
         (artifactsEmitted @ [artifact_contractName artifact])))"

type_synonym ArtifactsEmittedPerFile = "(ResolvedFile \<times> string list) list"

text \<open>The outer loop, over the resolved files of the job.\<close>

fun emitFilesLoop ::
  "CompilationJob \<Rightarrow> CompilerOutput \<Rightarrow> string \<Rightarrow> ResolvedFile list \<Rightarrow> ArtifactsEmittedPerFile
     \<Rightarrow> ArtifactsEmittedPerFile Task" where
  "emitFilesLoop job output pathToBuildInfo [] artifactsEmittedPerFile =
     ret artifactsEmittedPerFile"
| "emitFilesLoop job output pathToBuildInfo (file # rest) artifactsEmittedPerFile =
     (if \<not> emitsArtifacts job file
      then emitFilesLoop job output pathToBuildInfo rest artifactsEmittedPerFile
      else
        andThen
          (emitContractsLoop (sourceName file) pathToBuildInfo
             (contractEntries output (sourceName file)) [])
          (\<lambda>artifactsEmitted.
             emitFilesLoop job output pathToBuildInfo rest
               (artifactsEmittedPerFile @ [(file, artifactsEmitted)])))"

definition TASK_COMPILE_SOLIDITY_EMIT_ARTIFACTS ::
  "Env \<Rightarrow> CompilationJob \<Rightarrow> CompilerInput \<Rightarrow> CompilerOutput \<Rightarrow> SolcBuild
     \<Rightarrow> ArtifactsEmittedPerFile Task" where
  "TASK_COMPILE_SOLIDITY_EMIT_ARTIFACTS env compilationJob input output solcBuild =
     andThen
       (emit (SaveBuildInfo (version (getSolcConfig compilationJob)) (longVersion solcBuild)
                input output))
       (\<lambda>_.
     (let pathToBuildInfo =
            saveBuildInfo env (version (getSolcConfig compilationJob)) (longVersion solcBuild)
              input output
      in emitFilesLoop compilationJob output pathToBuildInfo
           (getResolvedFiles compilationJob) []))"

subsection \<open>Compiling jobs\<close>

definition TASK_COMPILE_SOLIDITY_GET_COMPILER_INPUT :: "CompilationJob \<Rightarrow> CompilerInput Task" where
  "TASK_COMPILE_SOLIDITY_GET_COMPILER_INPUT compilationJob =
     ret (getInputFromCompilationJob compilationJob)"

record CompileJobResult =
  res_artifactsEmittedPerFile :: ArtifactsEmittedPerFile
  res_compilationJob :: CompilationJob
  res_input :: CompilerInput
  res_output :: CompilerOutput
  res_solcBuild :: SolcBuild

text \<open>
  \<^verbatim>\<open>TASK_COMPILE_SOLIDITY_COMPILE_JOB\<close>; each run of it is noted in the trace with
  its job and index.
\<close>

definition TASK_COMPILE_SOLIDITY_COMPILE_JOB ::
  "Env \<Rightarrow> CompilationJob \<Rightarrow> CompilationJob list \<Rightarrow> nat \<Rightarrow> bool \<Rightarrow> bool
     \<Rightarrow> CompileJobResult Task" where
  "TASK_COMPILE_SOLIDITY_COMPILE_JOB env compilationJob compilationJobs compilationJobIndex
       quiet emitsArtifactsParam =
     andThen (emit (CompileJob compilationJob compilationJobIndex)) (\<lambda>_.
     andThen (TASK_COMPILE_SOLIDITY_GET_COMPILER_INPUT compilationJob) (\<lambda>input.
     andThen
       (TASK_COMPILE_SOLIDITY_COMPILE env input quiet
          (version (getSolcConfig compilationJob)) compilationJob compilationJobs
          compilationJobIndex)
       (\<lambda>(output, solcBuild).
     andThen (liftOutcome (TASK_COMPILE_SOLIDITY_CHECK_ERRORS output quiet)) (\<lambda>_.
     andThen
       (if emitsArtifactsParam
        then TASK_COMPILE_SOLIDITY_EMIT_ARTIFACTS env compilationJob input output solcBuild
        else ret [])
       (\<lambda>artifactsEmittedPerFile.
          ret \<lparr>res_artifactsEmittedPerFile = artifactsEmittedPerFile,
               res_compilationJob = compilationJob, res_input = input,
               res_output = output, res_solcBuild = solcBuild\<rparr>)))))"

text \<open>
  \<^verbatim>\<open>compilationJobs.slice().sort(...)\<close> with the comparator
  \<^verbatim>\<open>semver.compare(job1.getSolcConfig().version, job2.getSolcConfig().version)\<close>.
  \<^verbatim>\<open>Array.prototype.sort\<close> is stable, so with this comparator its result is the stable
  sort of the list, which insertion from the right computes.
\<close>

fun insertJob :: "CompilationJob \<Rightarrow> CompilationJob list \<Rightarrow> CompilationJob list" where
  "insertJob job1 [] = [job1]"
| "insertJob job1 (job2 # rest) =
     (if semver_compare (version (getSolcConfig job1)) (version (getSolcConfig job2)) \<le> 0
      then job1 # job2 # rest
      else job2 # insertJob job1 rest)"

definition sortedCompilationJobs :: "CompilationJob list \<Rightarrow> CompilationJob list" where
  "sortedCompilationJobs compilationJobs = foldr insertJob compilationJobs []"

text \<open>The order the comparator of the sort puts two jobs in.\<close>

abbreviation versionLe :: "CompilationJob \<Rightarrow> CompilationJob \<Rightarrow> bool" where
  "versionLe job1 job2 \<equiv>
     semver_compare (version (getSolcConfig job1)) (version (getSolcConfig job2)) \<le> 0"

type_synonym ArtifactsEmittedPerJob = "(CompilationJob \<times> ArtifactsEmittedPerFile) list"

text \<open>
  The \<^verbatim>\<open>for\<close> loop of \<^verbatim>\<open>TASK_COMPILE_SOLIDITY_COMPILE_JOBS\<close>: \<open>remaining\<close> are
  the sorted jobs from index \<open>i\<close> on.
\<close>

fun compileJobsLoop ::
  "Env \<Rightarrow> CompilationJob list \<Rightarrow> bool \<Rightarrow> CompilationJob list \<Rightarrow> nat \<Rightarrow> ArtifactsEmittedPerJob
     \<Rightarrow> ArtifactsEmittedPerJob Task" where
  "compileJobsLoop env sortedJobs quiet [] i artifactsEmittedPerJob =
     ret artifactsEmittedPerJob"
| "compileJobsLoop env sortedJobs quiet (compilationJob # remaining) i
       artifactsEmittedPerJob =
     andThen (TASK_COMPILE_SOLIDITY_COMPILE_JOB env compilationJob sortedJobs i quiet True)
       (\<lambda>result.
          compileJobsLoop env sortedJobs quiet remaining (Suc i)
            (artifactsEmittedPerJob @
               [(compilationJob, res_artifactsEmittedPerFile result)]))"

definition TASK_COMPILE_SOLIDITY_COMPILE_JOBS ::
  "Env \<Rightarrow> CompilationJob list \<Rightarrow> bool \<Rightarrow> ArtifactsEmittedPerJob Task" where
  "TASK_COMPILE_SOLIDITY_COMPILE_JOBS env compilationJobs quiet =
     (if compilationJobs = [] then ret []
      else compileJobsLoop env (sortedCompilationJobs compilationJobs) quiet
             (sortedCompilationJobs compilationJobs) 0 [])"

text \<open>The jobs whose compilation the trace records, in the order they were run.\<close>

fun jobsRun :: "Event list \<Rightarrow> CompilationJob list" where
  "jobsRun [] = []"
| "jobsRun (CompileJob job i # events) = job # jobsRun events"
| "jobsRun (ev # events) = jobsRun events"

subsection \<open>The main task\<close>

definition TASK_COMPILE_SOLIDITY_GET_COMPILATION_JOBS ::
  "Env \<Rightarrow> CompilationJob list \<times> CompilationJobCreationError list" where
  "TASK_COMPILE_SOLIDITY_GET_COMPILATION_JOBS env =
     (concat (map fst (connectedComponentsJobs env)),
      concat (map snd (connectedComponentsJobs env)))"

definition TASK_COMPILE_SOLIDITY_HANDLE_COMPILATION_JOBS_FAILURES ::
  "CompilationJobCreationError list \<Rightarrow> unit Outcome" where
  "TASK_COMPILE_SOLIDITY_HANDLE_COMPILATION_JOBS_FAILURES compilationJobsCreationErrors =
     (if length compilationJobsCreationErrors > 0
      then Throws COMPILATION_JOBS_CREATION_FAILURE else Returns ())"

definition TASK_COMPILE_SOLIDITY_MERGE_COMPILATION_JOBS ::
  "Env \<Rightarrow> CompilationJob list \<Rightarrow> CompilationJob list" where
  "TASK_COMPILE_SOLIDITY_MERGE_COMPILATION_JOBS env compilationJobs =
     mergeCompilationJobsWithoutBug env compilationJobs"

text \<open>The two nested loops that update the cache from the emitted artifacts.\<close>

fun updateCacheFiles ::
  "CompilationJob \<Rightarrow> SolidityFilesCache \<Rightarrow> ArtifactsEmittedPerFile \<Rightarrow> SolidityFilesCache" where
  "updateCacheFiles compilationJob cache [] = cache"
| "updateCacheFiles compilationJob cache ((file, artifactsEmitted) # rest) =
     updateCacheFiles compilationJob
       (addFile cache (absolutePath file)
          \<lparr>entry_lastModificationDate = lastModificationDate file,
           entry_contentHash = contentHash file,
           entry_sourceName = sourceName file,
           entry_solcConfig = getSolcConfig compilationJob,
           entry_imports = content_imports file,
           entry_versionPragmas = content_versionPragmas file,
           entry_artifacts = artifactsEmitted\<rparr>)
       rest"

fun updateCacheJobs :: "SolidityFilesCache \<Rightarrow> ArtifactsEmittedPerJob \<Rightarrow> SolidityFilesCache" where
  "updateCacheJobs cache [] = cache"
| "updateCacheJobs cache ((compilationJob, artifactsEmittedPerFile) # rest) =
     updateCacheJobs (updateCacheFiles compilationJob cache artifactsEmittedPerFile) rest"

text \<open>
  The jobs the main task hands to \<^verbatim>\<open>TASK_COMPILE_SOLIDITY_COMPILE_JOBS\<close>: the
  created jobs, filtered against the invalidated cache, then merged (the local variable
  \<^verbatim>\<open>mergedCompilationJobs\<close>; the filter cannot throw here, the cache being defined).
\<close>

definition mergedCompilationJobs :: "Env \<Rightarrow> bool \<Rightarrow> World \<Rightarrow> CompilationJob list" where
  "mergedCompilationJobs env force w =
     (let solidityFilesCache =
            invalidateCacheMissingArtifacts (cacheFile w) (artifactExists env)
              (graphResolvedFiles env)
      in case TASK_COMPILE_SOLIDITY_FILTER_COMPILATION_JOBS
                (fst (TASK_COMPILE_SOLIDITY_GET_COMPILATION_JOBS env)) force
                (Some solidityFilesCache) of
           Returns filteredCompilationJobs \<Rightarrow>
             TASK_COMPILE_SOLIDITY_MERGE_COMPILATION_JOBS env filteredCompilationJobs
         | _ \<Rightarrow> [])"

text \<open>
  \<^verbatim>\<open>TASK_COMPILE_SOLIDITY\<close>. Reading the cache file gives the \<open>cacheFile\<close> of the
  world, writing it sets it; source paths, source names and the dependency graph are the
  environment's.
\<close>

definition TASK_COMPILE_SOLIDITY :: "Env \<Rightarrow> bool \<Rightarrow> bool \<Rightarrow> unit Task" where
  "TASK_COMPILE_SOLIDITY env force quiet w0 =
     (let solidityFilesCache =
            invalidateCacheMissingArtifacts (cacheFile w0) (artifactExists env)
              (graphResolvedFiles env);
          compilationJobsCreationResult = TASK_COMPILE_SOLIDITY_GET_COMPILATION_JOBS env
      in
      (andThen
         (liftOutcome
            (TASK_COMPILE_SOLIDITY_HANDLE_COMPILATION_JOBS_FAILURES
               (snd compilationJobsCreationResult)))
         (\<lambda>_.
       andThen
         (liftOutcome
            (TASK_COMPILE_SOLIDITY_FILTER_COMPILATION_JOBS (fst compilationJobsCreationResult)
               force (Some solidityFilesCache)))
         (\<lambda>filteredCompilationJobs.
       andThen
         (TASK_COMPILE_SOLIDITY_COMPILE_JOBS env
            (TASK_COMPILE_SOLIDITY_MERGE_COMPILATION_JOBS env filteredCompilationJobs) quiet)
         (\<lambda>artifactsEmittedPerJob.
       andThen (emit RemoveObsoleteArtifacts) (\<lambda>_.
       andThen (emit RemoveObsoleteBuildInfos) (\<lambda>_.
         (\<lambda>w. (Returns (),
                w\<lparr>cacheFile :=
                     updateCacheJobs solidityFilesCache artifactsEmittedPerJob\<rparr>))))))))
        w0)"

subsection \<open>The cache check in the words of the specification\<close>

text \<open>
  Section 4.4, step C, of the specification drops a job when every artifact-emitting file
  passes the cache check: an entry exists for the file, its stored content hash matches and
  its stored solc config matches the job's. This is that check, written after the
  specification, to be compared with what \<open>needsCompilation\<close> computes.
\<close>

definition passesCacheCheck ::
  "SolidityFilesCache \<Rightarrow> CompilationJob \<Rightarrow> ResolvedFile \<Rightarrow> bool" where
  "passesCacheCheck cache job file =
     (case cache (absolutePath file) of
        None \<Rightarrow> False
      | Some cacheEntry \<Rightarrow>
          entry_contentHash cacheEntry = contentHash file \<and>
          entry_solcConfig cacheEntry = getSolcConfig job)"

subsection \<open>When the native compiler counts as failed\<close>

text \<open>
  The two ways \<^verbatim>\<open>nativeBinaryFailed\<close> becomes true in
  \<^verbatim>\<open>TASK_COMPILE_SOLIDITY_GET_SOLC_BUILD\<close>: the native binary is unavailable (the
  downloader has no compiler although the build it wants is not the WASM one), or its
  probe fails (the compiler it has is not the WASM one and the version probe exits with a
  code other than 0).
\<close>

definition nativeBinaryFails :: "Env \<Rightarrow> SemVer \<Rightarrow> bool" where
  "nativeBinaryFails env solcVersion =
     (case getDownloadedCompilerPath env False solcVersion of
        None \<Rightarrow> snd (getCompilerBuild env solcVersion) \<noteq> WASM
      | Some (resultPath, resultPlatform) \<Rightarrow>
          resultPlatform \<noteq> WASM \<and>
          (case exec env (resultPath @ '' --version'') of
             Exited code elapsed \<Rightarrow> code \<noteq> Some 0
           | NeverExits \<Rightarrow> False))"

text \<open>
  The probe in the words of the specification, sections 4.6 and 5: the binary works when
  the probe exits with code 0 within the timeout, 10 seconds by default. The code has no
  such constant; this is what \<open>checkSolcBinary\<close> is compared with.
\<close>

definition probeTimeoutMs :: nat where
  "probeTimeoutMs = 10000"

definition exitsWithZeroWithinTimeout :: "Env \<Rightarrow> string \<Rightarrow> bool" where
  "exitsWithZeroWithinTimeout env solcPath =
     (case exec env (solcPath @ '' --version'') of
        Exited code elapsed \<Rightarrow> code = Some 0 \<and> elapsed \<le> probeTimeoutMs
      | NeverExits \<Rightarrow> False)"

subsection \<open>A sample project\<close>

text \<open>
  Two files, \<open>A.sol\<close> importing \<open>B.sol\<close>, one job that compiles both with solc
  0.8.17 and emits artifacts for \<open>A.sol\<close> only, and a cache that knows \<open>A.sol\<close>.
\<close>

definition v0_8_17 :: SemVer where
  "v0_8_17 = \<lparr>major = 0, minor = 8, patch = 17, prerelease = []\<rparr>"

definition sample_config :: SolcConfig where
  "sample_config = \<lparr>version = v0_8_17, settings = ''{}''\<rparr>"

definition sample_A :: ResolvedFile where
  "sample_A = \<lparr>sourceName = ''contracts/A.sol'', absolutePath = ''/p/contracts/A.sol'',
     contentHash = ''hashA'', lastModificationDate = 1,
     content_rawContent = ''import ./B.sol; contract A {}'',
     content_imports = [''./B.sol''], content_versionPragmas = [''^0.8.0'']\<rparr>"

definition sample_B :: ResolvedFile where
  "sample_B = \<lparr>sourceName = ''contracts/B.sol'', absolutePath = ''/p/contracts/B.sol'',
     contentHash = ''hashB'', lastModificationDate = 2,
     content_rawContent = ''contract B {}'',
     content_imports = [], content_versionPragmas = [''^0.8.0'']\<rparr>"

definition sample_job :: CompilationJob where
  "sample_job = \<lparr>getSolcConfig = sample_config, getResolvedFiles = [sample_A, sample_B],
     emitsArtifacts = (\<lambda>file. sourceName file = ''contracts/A.sol'')\<rparr>"

definition entry_A :: CacheEntry where
  "entry_A = \<lparr>entry_lastModificationDate = 1, entry_contentHash = ''hashA'',
     entry_sourceName = ''contracts/A.sol'', entry_solcConfig = sample_config,
     entry_imports = [''./B.sol''], entry_versionPragmas = [''^0.8.0''],
     entry_artifacts = [''A'']\<rparr>"

definition cache_A_only :: SolidityFilesCache where
  "cache_A_only = [''/p/contracts/A.sol'' \<mapsto> entry_A]"

text \<open>
  An entry for \<open>B.sol\<close> written by a build with other compiler settings, a cache in
  which both files are unchanged, and a cache from before \<open>B.sol\<close> was edited.
\<close>

definition entry_B :: CacheEntry where
  "entry_B = \<lparr>entry_lastModificationDate = 2, entry_contentHash = ''hashB'',
     entry_sourceName = ''contracts/B.sol'',
     entry_solcConfig = \<lparr>version = v0_8_17, settings = ''{optimizer}''\<rparr>,
     entry_imports = [], entry_versionPragmas = [''^0.8.0''],
     entry_artifacts = [''B'']\<rparr>"

definition cache_unchanged :: SolidityFilesCache where
  "cache_unchanged =
     [''/p/contracts/A.sol'' \<mapsto> entry_A, ''/p/contracts/B.sol'' \<mapsto> entry_B]"

definition cache_B_edited :: SolidityFilesCache where
  "cache_B_edited =
     [''/p/contracts/A.sol'' \<mapsto> entry_A,
      ''/p/contracts/B.sol'' \<mapsto> entry_B\<lparr>entry_contentHash := ''hashB before the edit''\<rparr>]"

definition sample_warning :: Diagnostic where
  "sample_warning = \<lparr>severity = ''warning'', errorType = ''Warning'',
     message = ''Unused local variable.'',
     formattedMessage = ''Warning: Unused local variable.''\<rparr>"

definition sample_error :: Diagnostic where
  "sample_error = \<lparr>severity = ''error'', errorType = ''TypeError'',
     message = ''Member not found.'', formattedMessage = ''TypeError: Member not found.''\<rparr>"

definition output_with_warning :: CompilerOutput where
  "output_with_warning =
     \<lparr>errors = Some [sample_warning], contracts = Some [''contracts/A.sol'' \<mapsto> [(''A'', ''abiA'')]]\<rparr>"

definition output_with_error :: CompilerOutput where
  "output_with_error = \<lparr>errors = Some [sample_warning, sample_error], contracts = None\<rparr>"

text \<open>
  An environment in which everything works: a native compiler is downloaded and passes
  its probe, compiling gives one contract for \<open>A.sol\<close> and a warning, and all
  artifacts asked about exist. The world starts with an empty trace and an empty cache
  file.
\<close>

definition sample_env :: Env where
  "sample_env =
     \<lparr>getCompilerBuild = (\<lambda>v. (''0.8.17+commit.8df45f5f'', LINUX)),
      getDownloadedCompilerPath =
        (\<lambda>forceSolcJs v. if forceSolcJs then Some (''/compilers/soljson.js'', WASM)
                           else Some (''/compilers/solc'', LINUX)),
      exec = (\<lambda>command. Exited (Some 0) 25),
      nativeCompile = (\<lambda>solcPath input. output_with_warning),
      solcjsCompile = (\<lambda>solcJsPath input. output_with_warning),
      saveBuildInfo = (\<lambda>v lv input output. ''/p/artifacts/build-info/1.json''),
      artifactExists = (\<lambda>name. True),
      graphResolvedFiles = [sample_A, sample_B],
      connectedComponentsJobs = [([sample_job], [])],
      mergeCompilationJobsWithoutBug = (\<lambda>jobs. jobs)\<rparr>"

definition sample_world :: World where
  "sample_world = \<lparr>trace = [], cacheFile = Map.empty\<rparr>"

text \<open>The same environment with a native compiler whose probe exits with code 127.\<close>

definition broken_native_env :: Env where
  "broken_native_env = sample_env\<lparr>exec := (\<lambda>command. Exited (Some 127) 5)\<rparr>"

text \<open>The same environment with a native compiler that takes 20 seconds to answer.\<close>

definition slow_native_env :: Env where
  "slow_native_env = sample_env\<lparr>exec := (\<lambda>command. Exited (Some 0) 20000)\<rparr>"

text \<open>A job for solc 0.4.10, older than the first supported version.\<close>

definition v0_4_10 :: SemVer where
  "v0_4_10 = \<lparr>major = 0, minor = 4, patch = 10, prerelease = []\<rparr>"

definition old_job :: CompilationJob where
  "old_job = \<lparr>getSolcConfig = \<lparr>version = v0_4_10, settings = ''{}''\<rparr>,
     getResolvedFiles = [sample_B], emitsArtifacts = (\<lambda>file. True)\<rparr>"

definition sample_input :: CompilerInput where
  "sample_input = getInputFromCompilationJob sample_job"

definition sample_build :: SolcBuild where
  "sample_build = \<lparr>compilerPath = ''/compilers/solc'', isSolcJs = False,
     build_version = v0_8_17, longVersion = ''0.8.17+commit.8df45f5f''\<rparr>"

text \<open>
  A cache in which the config stored for \<open>A.sol\<close> is the one of a build with other
  compiler settings.
\<close>

definition cache_A_reconfigured :: SolidityFilesCache where
  "cache_A_reconfigured =
     [''/p/contracts/A.sol'' \<mapsto>
        entry_A\<lparr>entry_solcConfig := \<lparr>version = v0_8_17, settings = ''{optimizer}''\<rparr>\<rparr>,
      ''/p/contracts/B.sol'' \<mapsto> entry_B]"

text \<open>
  Two more jobs for \<open>B.sol\<close> alone: one for solc 0.7.6, one for solc 0.8.17 like the
  sample job. And the sample environment with a compiler that reports an error on the input
  of the sample job.
\<close>

definition v0_7_6 :: SemVer where
  "v0_7_6 = \<lparr>major = 0, minor = 7, patch = 6, prerelease = []\<rparr>"

definition legacy_job :: CompilationJob where
  "legacy_job = \<lparr>getSolcConfig = \<lparr>version = v0_7_6, settings = ''{}''\<rparr>,
     getResolvedFiles = [sample_B], emitsArtifacts = (\<lambda>file. True)\<rparr>"

definition twin_job :: CompilationJob where
  "twin_job = \<lparr>getSolcConfig = sample_config, getResolvedFiles = [sample_B],
     emitsArtifacts = (\<lambda>file. True)\<rparr>"

definition failing_env :: Env where
  "failing_env =
     sample_env\<lparr>nativeCompile :=
       (\<lambda>solcPath input. if input = sample_input then output_with_error
                          else output_with_warning)\<rparr>"

section \<open>Properties\<close>

lemmas task_defs = ret_def raise_def emit_def andThen_def liftOutcome_def

lemmas sample_defs =
  v0_8_17_def sample_config_def sample_A_def sample_B_def sample_job_def entry_A_def
  cache_A_only_def entry_B_def cache_unchanged_def cache_B_edited_def

subsection \<open>The order of versions\<close>

lemma js_string_less_irrefl: "\<not> js_string_less a a"
  by (induction a) auto

lemma char_code_total:
  "x \<noteq> y \<Longrightarrow> (of_char x :: nat) < of_char y \<or> (of_char y :: nat) < of_char x"
  using of_char_eq_iff [of x y, where ?'a = nat] by linarith

lemma js_string_less_total: "a \<noteq> b \<Longrightarrow> js_string_less a b \<or> js_string_less b a"
  using char_code_total
  by (induction a b rule: js_string_less.induct) auto

lemma js_string_less_asym: "js_string_less a b \<Longrightarrow> \<not> js_string_less b a"
  by (induction a b rule: js_string_less.induct) (auto split: if_splits)

lemma js_string_less_trans:
  "js_string_less a b \<Longrightarrow> js_string_less b c \<Longrightarrow> js_string_less a c"
proof (induction a b arbitrary: c rule: js_string_less.induct)
  case (4 x xs y ys)
  then show ?case by (cases c) (auto split: if_splits)
qed (auto elim: js_string_less.elims)

lemma compareIdentifiers_eq_0: "(compareIdentifiers a b = 0) = (a = b)"
  by (cases a; cases b) (auto simp: compareNumbers_def word_unat_eq_iff)

lemma compareIdentifiers_total: "compareIdentifiers a b \<le> 0 \<or> compareIdentifiers b a \<le> 0"
proof -
  have "x \<noteq> y \<Longrightarrow>
      js_string_less (Rep_AlphanumericString x) (Rep_AlphanumericString y) \<or>
      js_string_less (Rep_AlphanumericString y) (Rep_AlphanumericString x)" for x y
    using js_string_less_total [of "Rep_AlphanumericString x" "Rep_AlphanumericString y"]
    by (simp add: Rep_AlphanumericString_inject)
  then show ?thesis
    by (cases a; cases b) (auto simp: compareNumbers_def)
qed

lemma compareIdentifiers_antisym:
  "compareIdentifiers a b \<le> 0 \<Longrightarrow> compareIdentifiers b a \<le> 0 \<Longrightarrow> a = b"
  using js_string_less_asym
  by (cases a; cases b) (auto simp: compareNumbers_def word_unat_eq_iff split: if_splits)

lemma compareIdentifiers_le_0:
  "(compareIdentifiers a b \<le> 0) =
     (case a of
        Numeric m \<Rightarrow> (case b of Numeric n \<Rightarrow> unat m \<le> unat n | Alphanumeric t \<Rightarrow> True)
      | Alphanumeric s \<Rightarrow>
          (case b of
             Numeric n \<Rightarrow> False
           | Alphanumeric t \<Rightarrow>
               s = t \<or> js_string_less (Rep_AlphanumericString s) (Rep_AlphanumericString t)))"
  by (cases a; cases b) (simp_all add: compareNumbers_def)

lemma compareIdentifiers_trans:
  "compareIdentifiers a b \<le> 0 \<Longrightarrow> compareIdentifiers b c \<le> 0 \<Longrightarrow> compareIdentifiers a c \<le> 0"
  unfolding compareIdentifiers_le_0
  by (cases a; cases b; cases c) (use js_string_less_trans in \<open>simp_all, blast\<close>)

lemma comparePreLoop_total: "comparePreLoop xs ys \<le> 0 \<or> comparePreLoop ys xs \<le> 0"
  using compareIdentifiers_total
  by (induction xs ys rule: comparePreLoop.induct) auto

lemma comparePreLoop_trans:
  "comparePreLoop xs ys \<le> 0 \<Longrightarrow> comparePreLoop ys zs \<le> 0 \<Longrightarrow> comparePreLoop xs zs \<le> 0"
proof (induction xs ys arbitrary: zs rule: comparePreLoop.induct)
  case (4 a as b bs)
  show ?case
  proof (cases zs)
    case Nil
    with 4 show ?thesis by simp
  next
    case (Cons c cs)
    show ?thesis
    proof (cases "a = b")
      case True
      with 4 Cons show ?thesis by (auto split: if_splits)
    next
      case ab: False
      show ?thesis
      proof (cases "b = c")
        case True
        with 4 Cons ab show ?thesis by (auto split: if_splits)
      next
        case bc: False
        from 4(2) ab have 1: "compareIdentifiers a b \<le> 0" by simp
        from 4(3) bc Cons have 2: "compareIdentifiers b c \<le> 0" by simp
        have "a \<noteq> c"
          using 1 2 ab compareIdentifiers_antisym by blast
        with compareIdentifiers_trans[OF 1 2] Cons show ?thesis by simp
      qed
    qed
  qed
next
  case (3 b bs)
  then show ?case by (cases zs) auto
qed auto

lemma compareMain_le_0:
  "(compareMain a b \<le> 0) =
     (major a < major b \<or> major a = major b \<and>
        (minor a < minor b \<or> minor a = minor b \<and> patch a \<le> patch b))"
  by (auto simp: compareMain_def compareNumbers_def)

lemma compareMain_eq_0:
  "(compareMain a b = 0) = (major a = major b \<and> minor a = minor b \<and> patch a = patch b)"
  by (auto simp: compareMain_def compareNumbers_def)

lemma comparePre_le_0:
  "(comparePre a b \<le> 0) =
     (prerelease b = [] \<or>
      prerelease a \<noteq> [] \<and> comparePreLoop (prerelease a) (prerelease b) \<le> 0)"
  by (auto simp: comparePre_def)

lemma semver_compare_le_0:
  "(semver_compare a b \<le> 0) =
     (compareMain a b \<le> 0 \<and> (compareMain a b = 0 \<longrightarrow> comparePre a b \<le> 0))"
  by (auto simp: semver_compare_def)

lemma semver_compare_total: "semver_compare a b \<le> 0 \<or> semver_compare b a \<le> 0"
proof -
  have "prerelease a \<noteq> [] \<Longrightarrow> prerelease b \<noteq> [] \<Longrightarrow>
      comparePreLoop (prerelease a) (prerelease b) \<le> 0 \<or>
      comparePreLoop (prerelease b) (prerelease a) \<le> 0"
    by (rule comparePreLoop_total)
  then have "comparePre a b \<le> 0 \<or> comparePre b a \<le> 0"
    unfolding comparePre_le_0 by blast
  moreover have "compareMain a b \<le> 0 \<or> compareMain b a \<le> 0"
    unfolding compareMain_le_0 by linarith
  moreover have "compareMain a b \<le> 0 \<Longrightarrow> compareMain b a \<le> 0 \<Longrightarrow>
      compareMain a b = 0 \<and> compareMain b a = 0"
    unfolding compareMain_le_0 compareMain_eq_0 by linarith
  moreover have "(compareMain a b = 0) = (compareMain b a = 0)"
    unfolding compareMain_eq_0 by auto
  ultimately show ?thesis
    unfolding semver_compare_le_0 by force
qed

lemma compareMain_trans:
  "compareMain a b \<le> 0 \<Longrightarrow> compareMain b c \<le> 0 \<Longrightarrow>
     compareMain a c \<le> 0 \<and>
     (compareMain a c = 0 \<longrightarrow> compareMain a b = 0 \<and> compareMain b c = 0)"
  unfolding compareMain_le_0 compareMain_eq_0 by linarith

lemma comparePre_trans:
  "comparePre a b \<le> 0 \<Longrightarrow> comparePre b c \<le> 0 \<Longrightarrow> comparePre a c \<le> 0"
  unfolding comparePre_le_0
  using comparePreLoop_trans[of "prerelease a" "prerelease b" "prerelease c"]
  by blast

lemma semver_compare_trans:
  "semver_compare a b \<le> 0 \<Longrightarrow> semver_compare b c \<le> 0 \<Longrightarrow> semver_compare a c \<le> 0"
  unfolding semver_compare_le_0
  using compareMain_trans[of a b c] comparePre_trans[of a b c]
  by blast

lemma semver_compare_eq_0:
  "(semver_compare a b = 0) =
     (major a = major b \<and> minor a = minor b \<and> patch a = patch b \<and>
      prerelease a = prerelease b)"
proof -
  have loop: "(comparePreLoop xs ys = 0) = (xs = ys)" for xs ys
    by (induction xs ys rule: comparePreLoop.induct) (auto simp: compareIdentifiers_eq_0)
  have "(comparePre a b = 0) = (prerelease a = prerelease b)"
    using loop [of "prerelease a" "prerelease b"] by (auto simp: comparePre_def)
  then show ?thesis
    by (auto simp: semver_compare_def compareMain_eq_0)
qed

lemma semver_lt_first_supported:
  "semver_lt v COMPILE_TASK_FIRST_SOLC_VERSION_SUPPORTED =
     (major v = 0 \<and> (minor v < 4 \<or> minor v = 4 \<and>
        (patch v < 11 \<or> patch v = 11 \<and> prerelease v \<noteq> [])))"
  by (auto simp: semver_lt_def semver_compare_def compareMain_def compareNumbers_def
      comparePre_def COMPILE_TASK_FIRST_SOLC_VERSION_SUPPORTED_def)

subsection \<open>Diagnostics\<close>

text \<open>
  C5. \<^verbatim>\<open>TASK_COMPILE_SOLIDITY_CHECK_ERRORS\<close> throws the compilation failure exactly
  when the output lists a diagnostic of severity \<open>error\<close>; with only warnings, with an
  empty list or with no list at all it returns, and it never throws anything else.
\<close>

theorem check_errors_throws_iff_error_diagnostic:
  "(TASK_COMPILE_SOLIDITY_CHECK_ERRORS output quiet = Throws COMPILE_FAILURE) =
     (\<exists>es d. errors output = Some es \<and> d \<in> set es \<and> severity d = ''error'') \<and>
   (TASK_COMPILE_SOLIDITY_CHECK_ERRORS output quiet = Returns ()) =
     (\<not> (\<exists>es d. errors output = Some es \<and> d \<in> set es \<and> severity d = ''error''))"
  by (auto simp: TASK_COMPILE_SOLIDITY_CHECK_ERRORS_def hasCompilationErrors_def
      list_ex_iff split: option.splits)

theorem check_errors_witness:
  "TASK_COMPILE_SOLIDITY_CHECK_ERRORS output_with_error False = Throws COMPILE_FAILURE \<and>
   TASK_COMPILE_SOLIDITY_CHECK_ERRORS output_with_warning False = Returns ()"
proof -
  have "\<exists>es d. errors output_with_error = Some es \<and> d \<in> set es \<and> severity d = ''error''"
    by (intro exI[of _ "[sample_warning, sample_error]"] exI[of _ sample_error])
      (simp add: output_with_error_def sample_error_def)
  then have 1: "TASK_COMPILE_SOLIDITY_CHECK_ERRORS output_with_error False = Throws COMPILE_FAILURE"
    using check_errors_throws_iff_error_diagnostic [of output_with_error False] by blast
  have "\<not> (\<exists>es d. errors output_with_warning = Some es \<and> d \<in> set es \<and>
      severity d = ''error'')"
    by (simp add: output_with_warning_def sample_warning_def)
  then have 2: "TASK_COMPILE_SOLIDITY_CHECK_ERRORS output_with_warning False = Returns ()"
    using check_errors_throws_iff_error_diagnostic [of output_with_warning False] by blast
  from 1 2 show ?thesis by blast
qed

subsection \<open>The cache filter\<close>

lemma needsCompilationLoop_fst:
  "fst (needsCompilationLoop job cache files calls) =
     (\<exists>file \<in> set files.
        hasFileChanged cache (absolutePath file) (contentHash file)
          (if emitsArtifacts job file then Some (getSolcConfig job) else None))"
  by (induction files arbitrary: calls) (auto simp: Let_def)

lemma needsCompilationLoop_snd:
  "\<exists>n \<le> length files.
     snd (needsCompilationLoop job cache files calls) =
       calls @ map (\<lambda>file. (absolutePath file, contentHash file,
          if emitsArtifacts job file then Some (getSolcConfig job) else None)) (take n files)
     \<and> (\<not> fst (needsCompilationLoop job cache files calls) \<longrightarrow> n = length files)"
proof (induction files arbitrary: calls)
  case Nil
  then show ?case by simp
next
  case (Cons f fs)
  let ?c = "(absolutePath f, contentHash f,
          if emitsArtifacts job f then Some (getSolcConfig job) else None)"
  show ?case
  proof (cases "hasFileChanged cache (absolutePath f) (contentHash f)
          (if emitsArtifacts job f then Some (getSolcConfig job) else None)")
    case True
    then show ?thesis by (intro exI[of _ 1]) (simp add: Let_def)
  next
    case False
    from Cons.IH[of "calls @ [?c]"] obtain n where
      n: "n \<le> length fs"
      "snd (needsCompilationLoop job cache fs (calls @ [?c])) =
       (calls @ [?c]) @ map (\<lambda>file. (absolutePath file, contentHash file,
          if emitsArtifacts job file then Some (getSolcConfig job) else None)) (take n fs)"
      "\<not> fst (needsCompilationLoop job cache fs (calls @ [?c])) \<longrightarrow> n = length fs"
      by blast
    with False show ?thesis by (intro exI[of _ "Suc n"]) (simp add: Let_def)
  qed
qed

lemma hasFileChanged_for_file:
  "hasFileChanged cache (absolutePath file) (contentHash file)
          (if emitsArtifacts job file then Some (getSolcConfig job) else None) =
     (case cache (absolutePath file) of
           None \<Rightarrow> True
         | Some cacheEntry \<Rightarrow>
             entry_contentHash cacheEntry \<noteq> contentHash file \<or>
             (emitsArtifacts job file \<and> entry_solcConfig cacheEntry \<noteq> getSolcConfig job))"
  by (auto simp: hasFileChanged_def getEntry_def split: option.splits)

text \<open>
  C1, as amended. With \<open>force = false\<close> and a cache, the filter returns, in their
  order and unchanged, the jobs that have some input file failing its check: a file with no
  entry, or with another stored content hash, or, if the job emits artifacts for it,
  with another stored solc config. So a job is dropped exactly when every input file, the
  pure dependencies included, passes; a job with a failing artifact-emitting file is kept
  with all of its input files.
\<close>

theorem filter_keeps_jobs_with_a_changed_input:
  "TASK_COMPILE_SOLIDITY_FILTER_COMPILATION_JOBS compilationJobs False (Some cache) =
     Returns (filter (\<lambda>job. \<exists>file \<in> set (getResolvedFiles job).
        (case cache (absolutePath file) of
           None \<Rightarrow> True
         | Some cacheEntry \<Rightarrow>
             entry_contentHash cacheEntry \<noteq> contentHash file \<or>
             (emitsArtifacts job file \<and> entry_solcConfig cacheEntry \<noteq> getSolcConfig job)))
       compilationJobs)"
  by (simp add: TASK_COMPILE_SOLIDITY_FILTER_COMPILATION_JOBS_def needsCompilation_def
      needsCompilationLoop_fst hasFileChanged_for_file)

theorem filter_keeps_jobs_witness:
  "TASK_COMPILE_SOLIDITY_FILTER_COMPILATION_JOBS [sample_job] False (Some cache_A_only) =
     Returns [sample_job] \<and>
   TASK_COMPILE_SOLIDITY_FILTER_COMPILATION_JOBS [sample_job] False (Some cache_unchanged) =
     Returns []"
  using filter_keeps_jobs_with_a_changed_input [of "[sample_job]" cache_A_only]
    filter_keeps_jobs_with_a_changed_input [of "[sample_job]" cache_unchanged]
  by (simp add: sample_defs)

text \<open>
  C1, as stated, fails on the sample project after \<open>B.sol\<close> was edited: the only
  artifact-emitting file of the job, \<open>A.sol\<close>, passes the cache check, and still the job
  is kept, because the content hash stored for its dependency \<open>B.sol\<close> is no longer the
  file's.
\<close>

theorem filter_keeps_job_whose_emitting_files_all_pass:
  "getResolvedFiles sample_job = [sample_A, sample_B] \<and>
   emitsArtifacts sample_job sample_A \<and> \<not> emitsArtifacts sample_job sample_B \<and>
   passesCacheCheck cache_B_edited sample_job sample_A \<and>
   TASK_COMPILE_SOLIDITY_FILTER_COMPILATION_JOBS [sample_job] False (Some cache_B_edited) =
     Returns [sample_job]"
  by (simp add: sample_defs passesCacheCheck_def
      TASK_COMPILE_SOLIDITY_FILTER_COMPILATION_JOBS_def needsCompilation_def
      hasFileChanged_def getEntry_def Let_def)

lemma needsCompilationLoop_calls_decide:
  "fst (needsCompilationLoop job cache files calls) =
     (\<exists>(path, hash, config) \<in> set (drop (length calls)
          (snd (needsCompilationLoop job cache files calls))).
        hasFileChanged cache path hash config)"
proof (induction files arbitrary: calls)
  case Nil
  then show ?case by simp
next
  case (Cons f fs)
  let ?c = "(absolutePath f, contentHash f,
          if emitsArtifacts job f then Some (getSolcConfig job) else None)"
  show ?case
  proof (cases "hasFileChanged cache (absolutePath f) (contentHash f)
          (if emitsArtifacts job f then Some (getSolcConfig job) else None)")
    case True
    then show ?thesis by (simp add: Let_def)
  next
    case False
    obtain n where n: "snd (needsCompilationLoop job cache fs (calls @ [?c])) =
       (calls @ [?c]) @ map (\<lambda>file. (absolutePath file, contentHash file,
          if emitsArtifacts job file then Some (getSolcConfig job) else None)) (take n fs)"
      using needsCompilationLoop_snd [of fs job cache "calls @ [?c]"] by blast
    have d: "drop (length calls) (snd (needsCompilationLoop job cache fs (calls @ [?c]))) =
        ?c # drop (Suc (length calls)) (snd (needsCompilationLoop job cache fs (calls @ [?c])))"
      unfolding n by simp
    show ?thesis
      using False Cons.IH [of "calls @ [?c]"] d
      by (simp add: Let_def)
  qed
qed

text \<open>
  C3. \<^verbatim>\<open>needsCompilation\<close> answers true exactly when \<open>hasFileChanged\<close> does
  for some input file of the job, asked with the file's absolute path, its content hash and
  the job's solc config when the job emits artifacts for the file, no config when it does
  not. So the answer is true exactly when some input file has no cache entry, or another
  stored content hash, or, only if the job emits artifacts for it, another stored solc
  config: the config stored for a pure dependency has no part in the answer. The calls it
  makes are, in order, those for the input files up to the first changed one (for all of
  them when the job needs no compilation), and it answers true exactly when
  \<open>hasFileChanged\<close> does on one of them.
\<close>

theorem needsCompilation_compares_config_only_for_emitting_files:
  "needsCompilation job cache =
     (\<exists>file \<in> set (getResolvedFiles job).
        hasFileChanged cache (absolutePath file) (contentHash file)
          (if emitsArtifacts job file then Some (getSolcConfig job) else None)) \<and>
   needsCompilation job cache =
     (\<exists>file \<in> set (getResolvedFiles job).
        case cache (absolutePath file) of
          None \<Rightarrow> True
        | Some cacheEntry \<Rightarrow>
            entry_contentHash cacheEntry \<noteq> contentHash file \<or>
            (emitsArtifacts job file \<and> entry_solcConfig cacheEntry \<noteq> getSolcConfig job)) \<and>
   needsCompilation job cache =
     (\<exists>(path, hash, config) \<in> set (hasFileChangedCalls job cache).
        hasFileChanged cache path hash config) \<and>
   hasFileChangedCalls job cache =
     map (\<lambda>file. (absolutePath file, contentHash file,
            if emitsArtifacts job file then Some (getSolcConfig job) else None))
       (take (length (hasFileChangedCalls job cache)) (getResolvedFiles job)) \<and>
   (\<not> needsCompilation job cache \<longrightarrow>
      length (hasFileChangedCalls job cache) = length (getResolvedFiles job))"
proof -
  have a: "needsCompilation job cache =
     (\<exists>file \<in> set (getResolvedFiles job).
        hasFileChanged cache (absolutePath file) (contentHash file)
          (if emitsArtifacts job file then Some (getSolcConfig job) else None))"
    by (simp add: needsCompilation_def needsCompilationLoop_fst)
  have b: "needsCompilation job cache =
     (\<exists>file \<in> set (getResolvedFiles job).
        case cache (absolutePath file) of
          None \<Rightarrow> True
        | Some cacheEntry \<Rightarrow>
            entry_contentHash cacheEntry \<noteq> contentHash file \<or>
            (emitsArtifacts job file \<and> entry_solcConfig cacheEntry \<noteq> getSolcConfig job))"
    by (simp add: needsCompilation_def needsCompilationLoop_fst hasFileChanged_for_file)
  have c: "needsCompilation job cache =
     (\<exists>(path, hash, config) \<in> set (hasFileChangedCalls job cache).
        hasFileChanged cache path hash config)"
    using needsCompilationLoop_calls_decide [of job cache "getResolvedFiles job" "[]"]
    by (simp add: needsCompilation_def hasFileChangedCalls_def)
  obtain n where n: "n \<le> length (getResolvedFiles job)"
    "hasFileChangedCalls job cache =
       map (\<lambda>file. (absolutePath file, contentHash file,
          if emitsArtifacts job file then Some (getSolcConfig job) else None))
        (take n (getResolvedFiles job))"
    "\<not> needsCompilation job cache \<longrightarrow> n = length (getResolvedFiles job)"
    using needsCompilationLoop_snd [of "getResolvedFiles job" job cache "[]"]
    unfolding hasFileChangedCalls_def needsCompilation_def by auto
  from n(1,2) have len: "length (hasFileChangedCalls job cache) = n" by simp
  have d: "hasFileChangedCalls job cache =
     map (\<lambda>file. (absolutePath file, contentHash file,
            if emitsArtifacts job file then Some (getSolcConfig job) else None))
       (take (length (hasFileChangedCalls job cache)) (getResolvedFiles job))"
    using n(2) len by simp
  have e: "\<not> needsCompilation job cache \<longrightarrow>
      length (hasFileChangedCalls job cache) = length (getResolvedFiles job)"
    using n(3) len by simp
  from a b c d e show ?thesis by blast
qed

theorem needsCompilation_config_witness:
  "\<not> needsCompilation sample_job cache_unchanged \<and>
   entry_solcConfig entry_B \<noteq> getSolcConfig sample_job \<and>
   needsCompilation sample_job cache_A_reconfigured \<and>
   hasFileChangedCalls sample_job cache_A_reconfigured =
     [(''/p/contracts/A.sol'', ''hashA'', Some sample_config)]"
proof -
  have 1: "\<not> needsCompilation sample_job cache_unchanged"
    using needsCompilation_compares_config_only_for_emitting_files
      [of sample_job cache_unchanged]
    by (simp add: sample_defs hasFileChanged_def getEntry_def Let_def)
  have 2: "entry_solcConfig entry_B \<noteq> getSolcConfig sample_job"
    by (simp add: sample_defs)
  have 3: "needsCompilation sample_job cache_A_reconfigured"
    using needsCompilation_compares_config_only_for_emitting_files
      [of sample_job cache_A_reconfigured]
    by (simp add: sample_defs cache_A_reconfigured_def hasFileChanged_def getEntry_def Let_def)
  have "length (hasFileChangedCalls sample_job cache_A_reconfigured) = 1"
    by (simp add: sample_defs cache_A_reconfigured_def hasFileChangedCalls_def
        hasFileChanged_def getEntry_def Let_def)
  then have 4: "hasFileChangedCalls sample_job cache_A_reconfigured =
     [(''/p/contracts/A.sol'', ''hashA'', Some sample_config)]"
    using needsCompilation_compares_config_only_for_emitting_files
      [of sample_job cache_A_reconfigured]
    by (simp add: sample_defs)
  from 1 2 3 4 show ?thesis by blast
qed


subsection \<open>Invalidation of the cache\<close>

lemma invalidateEntryLoop_eq:
  "invalidateEntryLoop ex file arts cache =
     (if \<exists>a \<in> set arts. \<not> ex (getFullyQualifiedName (sourceName file) a)
      then removeEntry cache (absolutePath file) else cache)"
  by (induction arts) auto

text \<open>
  C4. After \<open>invalidateCacheMissingArtifacts\<close> the entry of a path is gone exactly when
  the path is the absolute path of a resolved file, the entry existed, and one of the
  artifacts the entry records is not in the artifact store under the file's fully qualified
  name; every other path, in particular the path of a file whose recorded artifacts all
  exist and any path that is not a resolved file's, keeps what it had.
\<close>

theorem invalidate_removes_exactly_entries_with_missing_artifacts:
  "invalidateCacheMissingArtifacts cache ex resolvedFiles path =
     (if \<exists>file \<in> set resolvedFiles. absolutePath file = path \<and>
           (\<exists>cacheEntry. cache path = Some cacheEntry \<and>
              (\<exists>emittedArtifact \<in> set (entry_artifacts cacheEntry).
                 \<not> ex (getFullyQualifiedName (sourceName file) emittedArtifact)))
      then None else cache path)"
proof (induction resolvedFiles arbitrary: cache)
  case Nil
  then show ?case by simp
next
  case (Cons f fs)
  define cache1 where "cache1 =
    (case getEntry cache (absolutePath f) of
       None \<Rightarrow> cache
     | Some cacheEntry \<Rightarrow> invalidateEntryLoop ex f (entry_artifacts cacheEntry) cache)"
  have step: "cache1 p =
     (if absolutePath f = p \<and>
         (\<exists>cacheEntry. cache p = Some cacheEntry \<and>
            (\<exists>a \<in> set (entry_artifacts cacheEntry).
               \<not> ex (getFullyQualifiedName (sourceName f) a)))
      then None else cache p)" for p
    by (auto simp: cache1_def getEntry_def invalidateEntryLoop_eq removeEntry_def
        split: option.splits)
  have unfold: "invalidateCacheMissingArtifacts cache ex (f # fs) path =
      invalidateCacheMissingArtifacts cache1 ex fs path"
    by (simp add: cache1_def split: option.splits)
  show ?case
    unfolding unfold Cons.IH[of cache1] step
    by auto
qed

theorem invalidate_witness:
  "invalidateCacheMissingArtifacts cache_A_only (\<lambda>name. name \<noteq> ''contracts/A.sol:A'')
     [sample_A, sample_B] ''/p/contracts/A.sol'' = None \<and>
   invalidateCacheMissingArtifacts cache_A_only (\<lambda>name. name = ''contracts/A.sol:A'')
     [sample_A, sample_B] ''/p/contracts/A.sol'' = Some entry_A"
  using invalidate_removes_exactly_entries_with_missing_artifacts
    [of cache_A_only "\<lambda>name. name \<noteq> ''contracts/A.sol:A''" "[sample_A, sample_B]"
      "''/p/contracts/A.sol''"]
    invalidate_removes_exactly_entries_with_missing_artifacts
    [of cache_A_only "\<lambda>name. name = ''contracts/A.sol:A''" "[sample_A, sample_B]"
      "''/p/contracts/A.sol''"]
  by (simp add: sample_defs getFullyQualifiedName_def)

subsection \<open>Traces of the tasks\<close>


lemma checkSolcBinary_eq:
  "checkSolcBinary env solcPath w =
     (case exec env (solcPath @ '' --version'') of
        Exited code elapsed \<Rightarrow> Returns (code = Some 0)
      | NeverExits \<Rightarrow> Pending,
      w\<lparr>trace := trace w @ [Exec (solcPath @ '' --version'')]\<rparr>)"
  by (simp add: checkSolcBinary_def task_defs split: ProcessExit.splits)

lemma jobsRun_append: "jobsRun (xs @ ys) = jobsRun xs @ jobsRun ys"
  by (induction xs rule: jobsRun.induct) auto

lemma emitContractsLoop_eq:
  "emitContractsLoop sn buildInfo entries emitted w =
     (Returns (emitted @ map fst entries),
      w\<lparr>trace := trace w @
        map (\<lambda>(contractName, contractOutput).
               SaveArtifactAndDebugFile
                 (getArtifactFromContractOutput sn contractName contractOutput) buildInfo)
          entries\<rparr>)"
proof (induction entries arbitrary: emitted w)
  case Nil
  then show ?case by (simp add: task_defs)
next
  case (Cons entry entries)
  obtain contractName contractOutput where entry: "entry = (contractName, contractOutput)"
    by (cases entry)
  show ?case
    unfolding entry
    by (simp add: Cons.IH task_defs getArtifactFromContractOutput_def
        TASK_COMPILE_SOLIDITY_GET_ARTIFACT_FROM_COMPILATION_OUTPUT_def)
qed

lemma emitFilesLoop_eq:
  "emitFilesLoop job output buildInfo files perFile w =
     (Returns (perFile @
        map (\<lambda>file. (file, map fst (contractEntries output (sourceName file))))
          (filter (emitsArtifacts job) files)),
      w\<lparr>trace := trace w @
        concat (map (\<lambda>file.
          map (\<lambda>(contractName, contractOutput).
                 SaveArtifactAndDebugFile
                   (getArtifactFromContractOutput (sourceName file) contractName
                      contractOutput) buildInfo)
            (contractEntries output (sourceName file)))
          (filter (emitsArtifacts job) files))\<rparr>)"
proof (induction files arbitrary: perFile w)
  case Nil
  then show ?case by (simp add: task_defs)
next
  case (Cons f fs)
  show ?case
    by (simp add: Cons.IH emitContractsLoop_eq task_defs)
qed

lemma emit_artifacts_eq:
  "TASK_COMPILE_SOLIDITY_EMIT_ARTIFACTS env job input output solcBuild w =
     (Returns
        (map (\<lambda>file. (file, map fst (contractEntries output (sourceName file))))
           (filter (emitsArtifacts job) (getResolvedFiles job))),
      w\<lparr>trace := trace w @
        SaveBuildInfo (version (getSolcConfig job)) (longVersion solcBuild) input output #
        concat (map (\<lambda>file.
          map (\<lambda>(contractName, contractOutput).
                 SaveArtifactAndDebugFile
                   (getArtifactFromContractOutput (sourceName file) contractName
                      contractOutput)
                   (saveBuildInfo env (version (getSolcConfig job)) (longVersion solcBuild)
                      input output))
            (contractEntries output (sourceName file)))
          (filter (emitsArtifacts job) (getResolvedFiles job)))\<rparr>)"
  by (simp add: TASK_COMPILE_SOLIDITY_EMIT_ARTIFACTS_def emitFilesLoop_eq task_defs Let_def)

lemma jobsRun_saves:
  "jobsRun (concat (map (\<lambda>file.
          map (\<lambda>(contractName, contractOutput).
                 SaveArtifactAndDebugFile (g file contractName contractOutput) (p file))
            (h file)) files)) = []"
proof (induction files)
  case Nil
  then show ?case by simp
next
  case (Cons f fs)
  have "jobsRun (map (\<lambda>(contractName, contractOutput).
                 SaveArtifactAndDebugFile (g f contractName contractOutput) (p f)) es) = []" for es
    by (induction es) auto
  with Cons show ?case by (simp add: jobsRun_append)
qed

lemma emit_artifacts_jobsRun:
  "jobsRun (trace (snd (TASK_COMPILE_SOLIDITY_EMIT_ARTIFACTS env job input output solcBuild w))) =
     jobsRun (trace w)"
  by (simp add: emit_artifacts_eq jobsRun_append jobsRun_saves)

lemma get_solc_build_jobsRun:
  "jobsRun (trace (snd (TASK_COMPILE_SOLIDITY_GET_SOLC_BUILD env quiet v w))) =
     jobsRun (trace w)"
  by (auto simp: TASK_COMPILE_SOLIDITY_GET_SOLC_BUILD_def jobsRun_append
      checkSolcBinary_eq task_defs Let_def
      split: option.splits prod.splits ProcessExit.splits if_splits)

lemma get_solc_build_trace:
  "\<exists>rest. trace (snd (TASK_COMPILE_SOLIDITY_GET_SOLC_BUILD env quiet v w)) =
      trace w @ GetDownloadedCompilerPath False v # rest"
  by (auto simp: TASK_COMPILE_SOLIDITY_GET_SOLC_BUILD_def
      checkSolcBinary_eq task_defs Let_def
      split: option.splits prod.splits ProcessExit.splits if_splits)

lemma get_solc_build_not_unsupported:
  "fst (TASK_COMPILE_SOLIDITY_GET_SOLC_BUILD env quiet v w) \<noteq>
     Throws (COMPILE_TASK_UNSUPPORTED_SOLC_VERSION a b)"
  by (auto simp: TASK_COMPILE_SOLIDITY_GET_SOLC_BUILD_def
      checkSolcBinary_eq task_defs Let_def
      split: option.splits prod.splits ProcessExit.splits if_splits)

lemma andThen_cases:
  "andThen m f w =
     (case fst (m w) of
        Returns x \<Rightarrow> f x (snd (m w))
      | Throws e \<Rightarrow> (Throws e, snd (m w))
      | Pending \<Rightarrow> (Pending, snd (m w)))"
  by (simp add: andThen_def split: prod.splits Outcome.splits)

lemma compile_solc_old:
  "semver_lt v COMPILE_TASK_FIRST_SOLC_VERSION_SUPPORTED \<Longrightarrow>
   TASK_COMPILE_SOLIDITY_COMPILE_SOLC env input quiet v job jobs i w =
     (Throws (COMPILE_TASK_UNSUPPORTED_SOLC_VERSION v COMPILE_TASK_FIRST_SOLC_VERSION_SUPPORTED), w)"
  by (simp add: TASK_COMPILE_SOLIDITY_COMPILE_SOLC_def raise_def)

lemmas compile_solc_steps =
  TASK_COMPILE_SOLIDITY_COMPILE_SOLC_def andThen_cases
  TASK_COMPILE_SOLIDITY_RUN_SOLC_def TASK_COMPILE_SOLIDITY_RUN_SOLCJS_def
  TASK_COMPILE_SOLIDITY_LOG_RUN_COMPILER_START_def
  TASK_COMPILE_SOLIDITY_LOG_RUN_COMPILER_END_def emit_def ret_def raise_def

lemma compile_solc_supported:
  assumes "\<not> semver_lt v COMPILE_TASK_FIRST_SOLC_VERSION_SUPPORTED"
  shows "fst (TASK_COMPILE_SOLIDITY_COMPILE_SOLC env input quiet v job jobs i w) \<noteq>
           Throws (COMPILE_TASK_UNSUPPORTED_SOLC_VERSION a b)"
    and "\<exists>rest. trace (snd (TASK_COMPILE_SOLIDITY_COMPILE_SOLC env input quiet v job jobs i w)) =
           trace w @ GetDownloadedCompilerPath False v # rest"
proof -
  let ?g = "TASK_COMPILE_SOLIDITY_GET_SOLC_BUILD env quiet v w"
  obtain rest where rest: "trace (snd ?g) = trace w @ GetDownloadedCompilerPath False v # rest"
    using get_solc_build_trace by blast
  have nu: "fst ?g \<noteq> Throws (COMPILE_TASK_UNSUPPORTED_SOLC_VERSION a b)"
    by (rule get_solc_build_not_unsupported)
  show "fst (TASK_COMPILE_SOLIDITY_COMPILE_SOLC env input quiet v job jobs i w) \<noteq>
           Throws (COMPILE_TASK_UNSUPPORTED_SOLC_VERSION a b)"
    using assms nu
    by (cases "fst ?g") (simp_all add: compile_solc_steps)
  show "\<exists>rest. trace (snd (TASK_COMPILE_SOLIDITY_COMPILE_SOLC env input quiet v job jobs i w)) =
           trace w @ GetDownloadedCompilerPath False v # rest"
    using assms rest
    by (cases "fst ?g") (simp_all add: compile_solc_steps)
qed

lemma compile_solc_jobsRun:
  "jobsRun (trace (snd (TASK_COMPILE_SOLIDITY_COMPILE_SOLC env input quiet v job jobs i w))) =
     jobsRun (trace w)"
  using get_solc_build_jobsRun [of env quiet v w]
  by (cases "fst (TASK_COMPILE_SOLIDITY_GET_SOLC_BUILD env quiet v w)")
    (simp_all add: compile_solc_steps jobsRun_append)

lemma compile_job_jobsRun:
  "jobsRun (trace (snd (TASK_COMPILE_SOLIDITY_COMPILE_JOB env job jobs i quiet flag w))) =
     jobsRun (trace w) @ [job]"
proof -
  let ?w1 = "w\<lparr>trace := trace w @ [CompileJob job i]\<rparr>"
  let ?c = "TASK_COMPILE_SOLIDITY_COMPILE_SOLC env (getInputFromCompilationJob job) quiet
      (version (getSolcConfig job)) job jobs i ?w1"
  have c: "jobsRun (trace (snd ?c)) = jobsRun (trace w) @ [job]"
    by (simp add: compile_solc_jobsRun jobsRun_append)
  show ?thesis
  proof (cases "fst ?c")
    case (Returns r)
    obtain compiled build where r: "r = (compiled, build)" by (cases r)
    show ?thesis
      using Returns c emit_artifacts_jobsRun [of env job "getInputFromCompilationJob job"
          compiled build "snd ?c"]
      by (simp add: TASK_COMPILE_SOLIDITY_COMPILE_JOB_def andThen_cases emit_def ret_def
          liftOutcome_def TASK_COMPILE_SOLIDITY_GET_COMPILER_INPUT_def
          TASK_COMPILE_SOLIDITY_COMPILE_def r split: Outcome.splits)
  next
    case (Throws e)
    then show ?thesis
      using c
      by (simp add: TASK_COMPILE_SOLIDITY_COMPILE_JOB_def andThen_cases emit_def ret_def
          TASK_COMPILE_SOLIDITY_GET_COMPILER_INPUT_def TASK_COMPILE_SOLIDITY_COMPILE_def)
  next
    case Pending
    then show ?thesis
      using c
      by (simp add: TASK_COMPILE_SOLIDITY_COMPILE_JOB_def andThen_cases emit_def ret_def
          TASK_COMPILE_SOLIDITY_GET_COMPILER_INPUT_def TASK_COMPILE_SOLIDITY_COMPILE_def)
  qed
qed

lemma compile_job_result:
  assumes "fst (TASK_COMPILE_SOLIDITY_COMPILE_JOB env job jobs i quiet True w) = Returns result"
  shows "res_artifactsEmittedPerFile result =
     map (\<lambda>file. (file, map fst (contractEntries (res_output result) (sourceName file))))
       (filter (emitsArtifacts job) (getResolvedFiles job))"
proof -
  let ?w1 = "w\<lparr>trace := trace w @ [CompileJob job i]\<rparr>"
  let ?c = "TASK_COMPILE_SOLIDITY_COMPILE_SOLC env (getInputFromCompilationJob job) quiet
      (version (getSolcConfig job)) job jobs i ?w1"
  show ?thesis
  proof (cases "fst ?c")
    case (Returns r)
    obtain compiled build where r: "r = (compiled, build)" by (cases r)
    show ?thesis
      using Returns assms
      by (auto simp: TASK_COMPILE_SOLIDITY_COMPILE_JOB_def andThen_cases emit_def ret_def
          liftOutcome_def TASK_COMPILE_SOLIDITY_GET_COMPILER_INPUT_def
          TASK_COMPILE_SOLIDITY_COMPILE_def r emit_artifacts_eq split: Outcome.splits)
  next
    case (Throws e)
    then show ?thesis
      using assms
      by (simp add: TASK_COMPILE_SOLIDITY_COMPILE_JOB_def andThen_cases emit_def ret_def
          TASK_COMPILE_SOLIDITY_GET_COMPILER_INPUT_def TASK_COMPILE_SOLIDITY_COMPILE_def)
  next
    case Pending
    then show ?thesis
      using assms
      by (simp add: TASK_COMPILE_SOLIDITY_COMPILE_JOB_def andThen_cases emit_def ret_def
          TASK_COMPILE_SOLIDITY_GET_COMPILER_INPUT_def TASK_COMPILE_SOLIDITY_COMPILE_def)
  qed
qed

lemma compileJobsLoop_jobsRun:
  "\<exists>k \<le> length remaining.
     jobsRun (trace (snd (compileJobsLoop env sortedJobs quiet remaining i acc w))) =
       jobsRun (trace w) @ take k remaining \<and>
     ((\<exists>out. fst (compileJobsLoop env sortedJobs quiet remaining i acc w) = Returns out)
        \<longrightarrow> k = length remaining)"
proof (induction remaining arbitrary: i acc w)
  case Nil
  then show ?case by (simp add: ret_def)
next
  case (Cons job remaining)
  let ?j = "TASK_COMPILE_SOLIDITY_COMPILE_JOB env job sortedJobs i quiet True w"
  have j: "jobsRun (trace (snd ?j)) = jobsRun (trace w) @ [job]"
    by (rule compile_job_jobsRun)
  show ?case
  proof (cases "fst ?j")
    case (Returns result)
    from Cons.IH [of "Suc i" "acc @ [(job, res_artifactsEmittedPerFile result)]" "snd ?j"]
    obtain k where k: "k \<le> length remaining"
      "jobsRun (trace (snd (compileJobsLoop env sortedJobs quiet remaining (Suc i)
          (acc @ [(job, res_artifactsEmittedPerFile result)]) (snd ?j)))) =
        jobsRun (trace (snd ?j)) @ take k remaining"
      "(\<exists>out. fst (compileJobsLoop env sortedJobs quiet remaining (Suc i)
          (acc @ [(job, res_artifactsEmittedPerFile result)]) (snd ?j)) = Returns out)
        \<longrightarrow> k = length remaining"
      by blast
    show ?thesis
      using Returns k j
      by (intro exI [of _ "Suc k"]) (simp add: andThen_cases)
  next
    case (Throws e)
    then show ?thesis
      using j by (intro exI [of _ 1]) (simp add: andThen_cases)
  next
    case Pending
    then show ?thesis
      using j by (intro exI [of _ 1]) (simp add: andThen_cases)
  qed
qed

lemma get_solc_build_outcome:
  "fst (TASK_COMPILE_SOLIDITY_GET_SOLC_BUILD env quiet v w) =
   fst (TASK_COMPILE_SOLIDITY_GET_SOLC_BUILD env quiet v w')"
  by (auto simp: TASK_COMPILE_SOLIDITY_GET_SOLC_BUILD_def
      checkSolcBinary_eq task_defs Let_def
      split: option.splits prod.splits ProcessExit.splits if_splits)

lemma compile_solc_outcome:
  "fst (TASK_COMPILE_SOLIDITY_COMPILE_SOLC env input quiet v job jobs i w) =
   fst (TASK_COMPILE_SOLIDITY_COMPILE_SOLC env input quiet v job jobs i w')"
proof (cases "fst (TASK_COMPILE_SOLIDITY_GET_SOLC_BUILD env quiet v w)")
  case (Returns build)
  then have "fst (TASK_COMPILE_SOLIDITY_GET_SOLC_BUILD env quiet v w') = Returns build"
    using get_solc_build_outcome [of env quiet v w w'] by simp
  with Returns show ?thesis by (simp add: compile_solc_steps)
next
  case (Throws e)
  then have "fst (TASK_COMPILE_SOLIDITY_GET_SOLC_BUILD env quiet v w') = Throws e"
    using get_solc_build_outcome [of env quiet v w w'] by simp
  with Throws show ?thesis by (simp add: compile_solc_steps)
next
  case Pending
  then have "fst (TASK_COMPILE_SOLIDITY_GET_SOLC_BUILD env quiet v w') = Pending"
    using get_solc_build_outcome [of env quiet v w w'] by simp
  with Pending show ?thesis by (simp add: compile_solc_steps)
qed

lemma compile_job_outcome:
  "fst (TASK_COMPILE_SOLIDITY_COMPILE_JOB env job jobs i quiet flag w) =
   fst (TASK_COMPILE_SOLIDITY_COMPILE_JOB env job jobs i quiet flag w')"
proof -
  let ?c = "\<lambda>w. TASK_COMPILE_SOLIDITY_COMPILE_SOLC env (getInputFromCompilationJob job) quiet
      (version (getSolcConfig job)) job jobs i (w\<lparr>trace := trace w @ [CompileJob job i]\<rparr>)"
  have c: "fst (?c w') = fst (?c w)"
    by (rule compile_solc_outcome)
  show ?thesis
  proof (cases "fst (?c w)")
    case (Returns r)
    obtain compiled build where r: "r = (compiled, build)" by (cases r)
    show ?thesis
      using Returns c
      by (simp add: TASK_COMPILE_SOLIDITY_COMPILE_JOB_def andThen_cases emit_def ret_def
          liftOutcome_def TASK_COMPILE_SOLIDITY_GET_COMPILER_INPUT_def
          TASK_COMPILE_SOLIDITY_COMPILE_def r emit_artifacts_eq split: Outcome.splits)
  next
    case (Throws e)
    then show ?thesis
      using c
      by (simp add: TASK_COMPILE_SOLIDITY_COMPILE_JOB_def andThen_cases emit_def ret_def
          TASK_COMPILE_SOLIDITY_GET_COMPILER_INPUT_def TASK_COMPILE_SOLIDITY_COMPILE_def)
  next
    case Pending
    then show ?thesis
      using c
      by (simp add: TASK_COMPILE_SOLIDITY_COMPILE_JOB_def andThen_cases emit_def ret_def
          TASK_COMPILE_SOLIDITY_GET_COMPILER_INPUT_def TASK_COMPILE_SOLIDITY_COMPILE_def)
  qed
qed

lemma compileJobsLoop_all_return:
  assumes "\<forall>j < length remaining. \<exists>result.
             fst (TASK_COMPILE_SOLIDITY_COMPILE_JOB env (remaining ! j) sortedJobs (i + j)
                    quiet True w0) = Returns result"
  shows "\<exists>out. fst (compileJobsLoop env sortedJobs quiet remaining i acc w) = Returns out"
  using assms
proof (induction remaining arbitrary: i acc w)
  case Nil
  then show ?case by (simp add: ret_def)
next
  case (Cons job remaining)
  from Cons.prems [rule_format, of 0] obtain result where
    "fst (TASK_COMPILE_SOLIDITY_COMPILE_JOB env job sortedJobs i quiet True w0) = Returns result"
    by auto
  then have r: "fst (TASK_COMPILE_SOLIDITY_COMPILE_JOB env job sortedJobs i quiet True w) =
      Returns result"
    using compile_job_outcome [of env job sortedJobs i quiet True w w0] by simp
  have "\<forall>j < length remaining. \<exists>result.
      fst (TASK_COMPILE_SOLIDITY_COMPILE_JOB env (remaining ! j) sortedJobs (Suc i + j)
             quiet True w0) = Returns result"
  proof (intro allI impI)
    fix j assume "j < length remaining"
    then show "\<exists>result.
      fst (TASK_COMPILE_SOLIDITY_COMPILE_JOB env (remaining ! j) sortedJobs (Suc i + j)
             quiet True w0) = Returns result"
      using Cons.prems [rule_format, of "Suc j"] by simp
  qed
  from Cons.IH [OF this]
  have "\<exists>out. fst (compileJobsLoop env sortedJobs quiet remaining (Suc i)
      (acc @ [(job, res_artifactsEmittedPerFile result)])
      (snd (TASK_COMPILE_SOLIDITY_COMPILE_JOB env job sortedJobs i quiet True w))) = Returns out" .
  with r show ?case by (simp add: andThen_cases)
qed

lemma compileJobsLoop_stops:
  assumes "k < length remaining"
    and "\<forall>j < k. \<exists>result.
           fst (TASK_COMPILE_SOLIDITY_COMPILE_JOB env (remaining ! j) sortedJobs (i + j)
                  quiet True w0) = Returns result"
    and "\<forall>result.
           fst (TASK_COMPILE_SOLIDITY_COMPILE_JOB env (remaining ! k) sortedJobs (i + k)
                  quiet True w0) \<noteq> Returns result"
  shows "jobsRun (trace (snd (compileJobsLoop env sortedJobs quiet remaining i acc w))) =
           jobsRun (trace w) @ take (Suc k) remaining \<and>
         (\<forall>e. fst (TASK_COMPILE_SOLIDITY_COMPILE_JOB env (remaining ! k) sortedJobs (i + k)
                  quiet True w0) = Throws e \<longrightarrow>
              fst (compileJobsLoop env sortedJobs quiet remaining i acc w) = Throws e) \<and>
         (fst (TASK_COMPILE_SOLIDITY_COMPILE_JOB env (remaining ! k) sortedJobs (i + k)
                  quiet True w0) = Pending \<longrightarrow>
              fst (compileJobsLoop env sortedJobs quiet remaining i acc w) = Pending)"
  using assms
proof (induction remaining arbitrary: k i acc w)
  case Nil
  then show ?case by simp
next
  case (Cons job remaining)
  let ?j = "TASK_COMPILE_SOLIDITY_COMPILE_JOB env job sortedJobs i quiet True w"
  have j: "jobsRun (trace (snd ?j)) = jobsRun (trace w) @ [job]"
    by (rule compile_job_jobsRun)
  have o: "fst (TASK_COMPILE_SOLIDITY_COMPILE_JOB env job sortedJobs i quiet True w0) = fst ?j"
    by (rule compile_job_outcome)
  show ?case
  proof (cases k)
    case 0
    with Cons.prems(3) o have nr: "\<forall>result. fst ?j \<noteq> Returns result" by simp
    show ?thesis
    proof (cases "fst ?j")
      case (Returns result)
      with nr show ?thesis by simp
    next
      case (Throws e)
      with 0 o j show ?thesis by (simp add: andThen_cases)
    next
      case Pending
      with 0 o j show ?thesis by (simp add: andThen_cases)
    qed
  next
    case (Suc k')
    from Cons.prems(2) [rule_format, of 0] Suc o obtain result where
      r: "fst ?j = Returns result" by auto
    have 1: "k' < length remaining" using Cons.prems(1) Suc by simp
    have 2: "\<forall>j < k'. \<exists>result.
           fst (TASK_COMPILE_SOLIDITY_COMPILE_JOB env (remaining ! j) sortedJobs (Suc i + j)
                  quiet True w0) = Returns result"
    proof (intro allI impI)
      fix j assume "j < k'"
      then show "\<exists>result.
           fst (TASK_COMPILE_SOLIDITY_COMPILE_JOB env (remaining ! j) sortedJobs (Suc i + j)
                  quiet True w0) = Returns result"
        using Cons.prems(2) [rule_format, of "Suc j"] Suc by simp
    qed
    have 3: "\<forall>result.
           fst (TASK_COMPILE_SOLIDITY_COMPILE_JOB env (remaining ! k') sortedJobs (Suc i + k')
                  quiet True w0) \<noteq> Returns result"
      using Cons.prems(3) Suc by simp
    from Cons.IH [OF 1 2 3, of "acc @ [(job, res_artifactsEmittedPerFile result)]" "snd ?j"]
    show ?thesis
      using r j Suc by (simp add: andThen_cases)
  qed
qed


lemma compileJobsLoop_result:
  assumes "fst (compileJobsLoop env sortedJobs quiet remaining i acc w) = Returns out"
  shows "\<exists>new. out = acc @ new \<and> map fst new = remaining \<and>
     (\<forall>(job, perFile) \<in> set new.
        map fst perFile = filter (emitsArtifacts job) (getResolvedFiles job))"
  using assms
proof (induction remaining arbitrary: i acc w)
  case Nil
  then show ?case by (simp add: ret_def)
next
  case (Cons job remaining)
  let ?j = "TASK_COMPILE_SOLIDITY_COMPILE_JOB env job sortedJobs i quiet True w"
  show ?case
  proof (cases "fst ?j")
    case (Returns result)
    with Cons.prems have "fst (compileJobsLoop env sortedJobs quiet remaining (Suc i)
          (acc @ [(job, res_artifactsEmittedPerFile result)]) (snd ?j)) = Returns out"
      by (simp add: andThen_cases)
    from Cons.IH [OF this] obtain new where new:
      "out = (acc @ [(job, res_artifactsEmittedPerFile result)]) @ new"
      "map fst new = remaining"
      "\<forall>(job, perFile) \<in> set new.
        map fst perFile = filter (emitsArtifacts job) (getResolvedFiles job)"
      by blast
    have "map fst (res_artifactsEmittedPerFile result) =
        filter (emitsArtifacts job) (getResolvedFiles job)"
      by (simp add: compile_job_result [OF Returns] comp_def)
    with new show ?thesis
      by (intro exI [of _ "(job, res_artifactsEmittedPerFile result) # new"]) simp
  next
    case (Throws e)
    with Cons.prems show ?thesis by (simp add: andThen_cases)
  next
    case Pending
    with Cons.prems show ?thesis by (simp add: andThen_cases)
  qed
qed

subsection \<open>Getting a compiler\<close>




lemma get_solc_build_probe_fails:
  assumes "getDownloadedCompilerPath env False v = Some (solcPath, resultPlatform)"
    and "resultPlatform \<noteq> WASM"
    and "exec env (solcPath @ '' --version'') = Exited code elapsed"
    and "code \<noteq> Some 0"
  shows "trace (snd (TASK_COMPILE_SOLIDITY_GET_SOLC_BUILD env quiet v w)) =
     trace w @ [GetDownloadedCompilerPath False v, Exec (solcPath @ '' --version''),
                GetDownloadedCompilerPath True v]"
  using assms
  by (auto simp: TASK_COMPILE_SOLIDITY_GET_SOLC_BUILD_def
      checkSolcBinary_eq task_defs Let_def
      split: option.splits prod.splits ProcessExit.splits if_splits)




text \<open>
  When the first downloader itself hands back the WASM build, no probe and no fallback
  run, and the build is returned with \<open>isSolcJs\<close> false: only the fallback branch
  assigns the local variable \<^verbatim>\<open>platform\<close> the flag is computed from.
\<close>

lemma get_solc_build_wasm_from_first_downloader:
  assumes "getDownloadedCompilerPath env False v = Some (solcPath, WASM)"
  shows "TASK_COMPILE_SOLIDITY_GET_SOLC_BUILD env quiet v w =
     (Returns \<lparr>compilerPath = solcPath, isSolcJs = False, build_version = v,
               longVersion = fst (getCompilerBuild env v)\<rparr>,
      w\<lparr>trace := trace w @ [GetDownloadedCompilerPath False v]\<rparr>)"
  using assms
  by (simp add: TASK_COMPILE_SOLIDITY_GET_SOLC_BUILD_def task_defs Let_def
      split: prod.splits)

text \<open>
  C7, as amended. \<open>checkSolcBinary\<close> judges the binary working exactly when the
  \<^verbatim>\<open>--version\<close> process exits with code 0, however long that takes; it judges it not
  working exactly when the process exits otherwise, and its promise stays pending when the
  process never exits. A native compiler whose probe exits with another code counts as
  failed, and the task goes on to the solcjs downloader.
\<close>

theorem checkSolcBinary_works_iff_exit_code_zero:
  "(fst (checkSolcBinary env solcPath w) = Returns True) =
     (\<exists>elapsed. exec env (solcPath @ '' --version'') = Exited (Some 0) elapsed) \<and>
   (fst (checkSolcBinary env solcPath w) = Returns False) =
     (\<exists>code elapsed. exec env (solcPath @ '' --version'') = Exited code elapsed \<and>
        code \<noteq> Some 0) \<and>
   (fst (checkSolcBinary env solcPath w) = Pending) =
     (exec env (solcPath @ '' --version'') = NeverExits) \<and>
   (\<forall>resultPlatform code elapsed.
      getDownloadedCompilerPath env False solcVersion = Some (solcPath, resultPlatform) \<and>
      resultPlatform \<noteq> WASM \<and>
      exec env (solcPath @ '' --version'') = Exited code elapsed \<and> code \<noteq> Some 0 \<longrightarrow>
      nativeBinaryFails env solcVersion \<and>
      trace (snd (TASK_COMPILE_SOLIDITY_GET_SOLC_BUILD env quiet solcVersion w)) =
        trace w @ [GetDownloadedCompilerPath False solcVersion,
                   Exec (solcPath @ '' --version''),
                   GetDownloadedCompilerPath True solcVersion])"
proof -
  have 1: "(fst (checkSolcBinary env solcPath w) = Returns True) =
     (\<exists>elapsed. exec env (solcPath @ '' --version'') = Exited (Some 0) elapsed)"
    by (auto simp: checkSolcBinary_eq split: ProcessExit.splits)
  have 2: "(fst (checkSolcBinary env solcPath w) = Returns False) =
     (\<exists>code elapsed. exec env (solcPath @ '' --version'') = Exited code elapsed \<and>
        code \<noteq> Some 0)"
    by (auto simp: checkSolcBinary_eq split: ProcessExit.splits)
  have 3: "(fst (checkSolcBinary env solcPath w) = Pending) =
     (exec env (solcPath @ '' --version'') = NeverExits)"
    by (auto simp: checkSolcBinary_eq split: ProcessExit.splits)
  have 4: "nativeBinaryFails env solcVersion \<and>
      trace (snd (TASK_COMPILE_SOLIDITY_GET_SOLC_BUILD env quiet solcVersion w)) =
        trace w @ [GetDownloadedCompilerPath False solcVersion,
                   Exec (solcPath @ '' --version''),
                   GetDownloadedCompilerPath True solcVersion]"
    if "getDownloadedCompilerPath env False solcVersion = Some (solcPath, resultPlatform)"
      "resultPlatform \<noteq> WASM"
      "exec env (solcPath @ '' --version'') = Exited code elapsed" "code \<noteq> Some 0"
    for resultPlatform code elapsed
    using that get_solc_build_probe_fails [OF that, of quiet w]
    by (simp add: nativeBinaryFails_def)
  from 1 2 3 4 show ?thesis by blast
qed

theorem checkSolcBinary_witness:
  "fst (checkSolcBinary sample_env ''/compilers/solc'' sample_world) = Returns True \<and>
   fst (checkSolcBinary broken_native_env ''/compilers/solc'' sample_world) = Returns False \<and>
   trace (snd (TASK_COMPILE_SOLIDITY_GET_SOLC_BUILD broken_native_env False v0_8_17
     sample_world)) =
     [GetDownloadedCompilerPath False v0_8_17, Exec ''/compilers/solc --version'',
      GetDownloadedCompilerPath True v0_8_17]"
proof -
  have 1: "exec sample_env (''/compilers/solc'' @ '' --version'') = Exited (Some 0) 25"
    by (simp add: sample_env_def)
  have 2: "exec broken_native_env (''/compilers/solc'' @ '' --version'') = Exited (Some 127) 5"
    by (simp add: broken_native_env_def sample_env_def)
  have 3: "getDownloadedCompilerPath broken_native_env False v0_8_17 =
      Some (''/compilers/solc'', LINUX)"
    by (simp add: broken_native_env_def sample_env_def)
  have a: "fst (checkSolcBinary sample_env ''/compilers/solc'' sample_world) = Returns True"
    using checkSolcBinary_works_iff_exit_code_zero
      [of sample_env "''/compilers/solc''" sample_world v0_8_17 False] 1
    by blast
  have b: "fst (checkSolcBinary broken_native_env ''/compilers/solc'' sample_world) =
      Returns False"
    using checkSolcBinary_works_iff_exit_code_zero
      [of broken_native_env "''/compilers/solc''" sample_world v0_8_17 False] 2
    by (metis option.inject zero_neq_numeral)
  have c: "trace (snd (TASK_COMPILE_SOLIDITY_GET_SOLC_BUILD broken_native_env False v0_8_17
     sample_world)) =
     trace sample_world @
     [GetDownloadedCompilerPath False v0_8_17, Exec (''/compilers/solc'' @ '' --version''),
      GetDownloadedCompilerPath True v0_8_17]"
    using checkSolcBinary_works_iff_exit_code_zero
      [of broken_native_env "''/compilers/solc''" sample_world v0_8_17 False] 2 3
    by (metis CompilerPlatform.distinct(5) option.inject zero_neq_numeral)
  from a b c show ?thesis by (simp add: sample_world_def)
qed

text \<open>
  C7, as stated, fails for a native compiler that exits with code 0 after 20 seconds: it
  did not exit with code 0 within the 10 seconds of the specification, and the code judges
  it working and returns the native build without any fallback.
\<close>

theorem slow_native_compiler_is_judged_working:
  "exec slow_native_env ''/compilers/solc --version'' = Exited (Some 0) 20000 \<and>
   \<not> exitsWithZeroWithinTimeout slow_native_env ''/compilers/solc'' \<and>
   checkSolcBinary slow_native_env ''/compilers/solc'' sample_world =
     (Returns True, sample_world\<lparr>trace := [Exec ''/compilers/solc --version'']\<rparr>) \<and>
   TASK_COMPILE_SOLIDITY_GET_SOLC_BUILD slow_native_env False v0_8_17 sample_world =
     (Returns sample_build,
      sample_world\<lparr>trace := [GetDownloadedCompilerPath False v0_8_17,
                               Exec ''/compilers/solc --version'']\<rparr>)"
  by (simp add: slow_native_env_def sample_env_def exitsWithZeroWithinTimeout_def
      probeTimeoutMs_def checkSolcBinary_eq sample_world_def sample_build_def
      TASK_COMPILE_SOLIDITY_GET_SOLC_BUILD_def task_defs)

subsection \<open>The version guard\<close>

text \<open>
  C10. For a version that \<^verbatim>\<open>semver.lt\<close> puts before 0.4.11 (major 0 and minor below
  4, or 0.4 with a patch below 11, or a prerelease of 0.4.11),
  \<^verbatim>\<open>TASK_COMPILE_SOLIDITY_COMPILE_SOLC\<close> throws the unsupported-version error and
  leaves the world as it found it: no downloader was asked and no compiler was run. For
  every other version it never throws that error, and the first thing it does is ask the
  downloader for the compiler.
\<close>

theorem compile_solc_rejects_versions_older_than_first_supported:
  "(semver_lt solcVersion COMPILE_TASK_FIRST_SOLC_VERSION_SUPPORTED \<longrightarrow>
      TASK_COMPILE_SOLIDITY_COMPILE_SOLC env input quiet solcVersion compilationJob
          compilationJobs compilationJobIndex w =
        (Throws (COMPILE_TASK_UNSUPPORTED_SOLC_VERSION solcVersion
                   COMPILE_TASK_FIRST_SOLC_VERSION_SUPPORTED), w)) \<and>
   (\<not> semver_lt solcVersion COMPILE_TASK_FIRST_SOLC_VERSION_SUPPORTED \<longrightarrow>
      (\<forall>a b. fst (TASK_COMPILE_SOLIDITY_COMPILE_SOLC env input quiet solcVersion
                       compilationJob compilationJobs compilationJobIndex w) \<noteq>
         Throws (COMPILE_TASK_UNSUPPORTED_SOLC_VERSION a b)) \<and>
      (\<exists>rest. trace (snd (TASK_COMPILE_SOLIDITY_COMPILE_SOLC env input quiet solcVersion
                              compilationJob compilationJobs compilationJobIndex w)) =
         trace w @ GetDownloadedCompilerPath False solcVersion # rest)) \<and>
   semver_lt solcVersion COMPILE_TASK_FIRST_SOLC_VERSION_SUPPORTED =
     (major solcVersion = 0 \<and>
      (minor solcVersion < 4 \<or>
       minor solcVersion = 4 \<and>
         (patch solcVersion < 11 \<or>
          patch solcVersion = 11 \<and> prerelease solcVersion \<noteq> [])))"
  using compile_solc_old [of solcVersion env input quiet compilationJob compilationJobs
      compilationJobIndex w]
    compile_solc_supported [of solcVersion env input quiet compilationJob compilationJobs
      compilationJobIndex w]
    semver_lt_first_supported [of solcVersion]
  by blast

lemma sample_get_solc_build:
  "TASK_COMPILE_SOLIDITY_GET_SOLC_BUILD sample_env quiet v0_8_17 w =
     (Returns sample_build,
      w\<lparr>trace := trace w @ [GetDownloadedCompilerPath False v0_8_17,
                            Exec ''/compilers/solc --version'']\<rparr>)"
  by (simp add: TASK_COMPILE_SOLIDITY_GET_SOLC_BUILD_def sample_env_def sample_build_def
      checkSolcBinary_eq task_defs)

lemma v0_8_17_supported: "\<not> semver_lt v0_8_17 COMPILE_TASK_FIRST_SOLC_VERSION_SUPPORTED"
  by (simp add: semver_lt_first_supported v0_8_17_def)

lemma v0_4_10_unsupported: "semver_lt v0_4_10 COMPILE_TASK_FIRST_SOLC_VERSION_SUPPORTED"
  by (simp add: semver_lt_first_supported v0_4_10_def)

lemma sample_compile_solc:
  assumes "i < length jobs"
  shows "TASK_COMPILE_SOLIDITY_COMPILE_SOLC sample_env input quiet v0_8_17 job jobs i w =
     (Returns (output_with_warning, sample_build),
      w\<lparr>trace := trace w @ [GetDownloadedCompilerPath False v0_8_17,
                            Exec ''/compilers/solc --version'',
                            RunSolc ''/compilers/solc'' input]\<rparr>)"
proof -
  have "nativeCompile sample_env ''/compilers/solc'' input = output_with_warning"
    by (simp add: sample_env_def)
  with assms show ?thesis
    by (simp add: TASK_COMPILE_SOLIDITY_COMPILE_SOLC_def v0_8_17_supported
        sample_get_solc_build TASK_COMPILE_SOLIDITY_RUN_SOLC_def task_defs sample_build_def
        TASK_COMPILE_SOLIDITY_LOG_RUN_COMPILER_START_def
        TASK_COMPILE_SOLIDITY_LOG_RUN_COMPILER_END_def)
qed

theorem compile_solc_guard_witness:
  "TASK_COMPILE_SOLIDITY_COMPILE_SOLC sample_env sample_input False v0_4_10 old_job
       [old_job] 0 sample_world =
     (Throws (COMPILE_TASK_UNSUPPORTED_SOLC_VERSION v0_4_10
                COMPILE_TASK_FIRST_SOLC_VERSION_SUPPORTED), sample_world) \<and>
   fst (TASK_COMPILE_SOLIDITY_COMPILE_SOLC sample_env sample_input False v0_8_17 sample_job
          [sample_job] 0 sample_world) \<noteq>
     Throws (COMPILE_TASK_UNSUPPORTED_SOLC_VERSION v0_8_17
               COMPILE_TASK_FIRST_SOLC_VERSION_SUPPORTED) \<and>
   TASK_COMPILE_SOLIDITY_COMPILE_SOLC sample_env sample_input False v0_8_17 sample_job
       [sample_job] 0 sample_world =
     (Returns (output_with_warning, sample_build),
      sample_world\<lparr>trace := [GetDownloadedCompilerPath False v0_8_17,
                               Exec ''/compilers/solc --version'',
                               RunSolc ''/compilers/solc'' sample_input]\<rparr>)"
  using compile_solc_rejects_versions_older_than_first_supported
      [of v0_4_10 sample_env sample_input False old_job "[old_job]" 0 sample_world]
    compile_solc_rejects_versions_older_than_first_supported
      [of v0_8_17 sample_env sample_input False sample_job "[sample_job]" 0 sample_world]
    v0_4_10_unsupported v0_8_17_supported
    sample_compile_solc [of 0 "[sample_job]" sample_input False sample_job sample_world]
  by (simp add: sample_world_def)

subsection \<open>Emitting artifacts\<close>

text \<open>
  C9. \<^verbatim>\<open>TASK_COMPILE_SOLIDITY_EMIT_ARTIFACTS\<close> always returns, and what it adds to the
  trace is one \<open>SaveBuildInfo\<close> for the job followed by one
  \<open>SaveArtifactAndDebugFile\<close> for each contract of each input file the job emits
  artifacts for, in the order of the files, and nothing else; the list it returns has
  exactly those files. A file that is in the job only as a dependency gets no artifact.
\<close>

theorem emit_artifacts_saves_only_for_emitting_files:
  "TASK_COMPILE_SOLIDITY_EMIT_ARTIFACTS env compilationJob input output solcBuild w =
     (Returns
        (map (\<lambda>file. (file, map fst (contractEntries output (sourceName file))))
           (filter (emitsArtifacts compilationJob) (getResolvedFiles compilationJob))),
      w\<lparr>trace := trace w @
        SaveBuildInfo (version (getSolcConfig compilationJob)) (longVersion solcBuild)
          input output #
        concat (map (\<lambda>file.
          map (\<lambda>(contractName, contractOutput).
                 SaveArtifactAndDebugFile
                   (getArtifactFromContractOutput (sourceName file) contractName
                      contractOutput)
                   (saveBuildInfo env (version (getSolcConfig compilationJob))
                      (longVersion solcBuild) input output))
            (contractEntries output (sourceName file)))
          (filter (emitsArtifacts compilationJob) (getResolvedFiles compilationJob)))\<rparr>)"
  by (rule emit_artifacts_eq)

lemma sample_contractEntries:
  "contractEntries output_with_warning ''contracts/A.sol'' = [(''A'', ''abiA'')]"
  by (simp add: contractEntries_def output_with_warning_def)

lemma sample_emitting_files:
  "filter (emitsArtifacts sample_job) (getResolvedFiles sample_job) = [sample_A]"
  by (simp add: sample_job_def sample_A_def sample_B_def)

lemma sample_saveBuildInfo:
  "saveBuildInfo sample_env v lv input output = ''/p/artifacts/build-info/1.json''"
  by (simp add: sample_env_def)

lemma sample_A_sourceName: "sourceName sample_A = ''contracts/A.sol''"
  by (simp add: sample_A_def)

theorem emit_artifacts_witness:
  "TASK_COMPILE_SOLIDITY_EMIT_ARTIFACTS sample_env sample_job sample_input
       output_with_warning sample_build sample_world =
     (Returns [(sample_A, [''A''])],
      sample_world\<lparr>trace :=
        [SaveBuildInfo v0_8_17 ''0.8.17+commit.8df45f5f'' sample_input output_with_warning,
         SaveArtifactAndDebugFile
           \<lparr>artifact_sourceName = ''contracts/A.sol'', artifact_contractName = ''A'',
            artifact_output = ''abiA''\<rparr>
           ''/p/artifacts/build-info/1.json'']\<rparr>)"
proof -
  have "version (getSolcConfig sample_job) = v0_8_17"
    by (simp add: sample_job_def sample_config_def)
  moreover have "longVersion sample_build = ''0.8.17+commit.8df45f5f''"
    by (simp add: sample_build_def)
  moreover have "trace sample_world = []"
    by (simp add: sample_world_def)
  ultimately show ?thesis
    using emit_artifacts_saves_only_for_emitting_files
      [of sample_env sample_job sample_input output_with_warning sample_build sample_world]
    by (simp add: sample_emitting_files sample_contractEntries sample_saveBuildInfo
        sample_A_sourceName getArtifactFromContractOutput_def)
qed

subsection \<open>Compiling the jobs in version order\<close>

lemma mset_insertJob: "mset (insertJob job jobs) = add_mset job (mset jobs)"
  by (induction jobs) auto

lemma set_insertJob: "set (insertJob job jobs) = insert job (set jobs)"
  by (induction jobs) auto

lemma sorted_insertJob:
  "sorted_wrt versionLe jobs \<Longrightarrow> sorted_wrt versionLe (insertJob job jobs)"
proof (induction jobs)
  case Nil
  then show ?case by simp
next
  case (Cons j js)
  show ?case
  proof (cases "versionLe job j")
    case True
    with Cons.prems show ?thesis
      using semver_compare_trans by (auto simp: set_insertJob)
  next
    case False
    then have "versionLe j job" using semver_compare_total by blast
    with False Cons show ?thesis by (auto simp: set_insertJob)
  qed
qed

lemma mset_sortedCompilationJobs: "mset (sortedCompilationJobs jobs) = mset jobs"
  unfolding sortedCompilationJobs_def by (induction jobs) (auto simp: mset_insertJob)

lemma sorted_sortedCompilationJobs: "sorted_wrt versionLe (sortedCompilationJobs jobs)"
  unfolding sortedCompilationJobs_def by (induction jobs) (auto simp: sorted_insertJob)

lemma filter_insertJob:
  "filter (\<lambda>job. semver_compare (version (getSolcConfig job)) v = 0) (insertJob job1 jobs) =
   filter (\<lambda>job. semver_compare (version (getSolcConfig job)) v = 0) (job1 # jobs)"
proof (induction jobs)
  case Nil
  then show ?case by simp
next
  case (Cons job2 rest)
  show ?case
  proof (cases "versionLe job1 job2")
    case True
    then show ?thesis by simp
  next
    case False
    have "\<not> (semver_compare (version (getSolcConfig job1)) v = 0 \<and>
              semver_compare (version (getSolcConfig job2)) v = 0)"
    proof
      assume "semver_compare (version (getSolcConfig job1)) v = 0 \<and>
              semver_compare (version (getSolcConfig job2)) v = 0"
      then have "semver_compare (version (getSolcConfig job1)) (version (getSolcConfig job2)) = 0"
        unfolding semver_compare_eq_0 by simp
      with False show False by simp
    qed
    with False Cons.IH show ?thesis by auto
  qed
qed

lemma filter_sortedCompilationJobs:
  "filter (\<lambda>job. semver_compare (version (getSolcConfig job)) v = 0)
      (sortedCompilationJobs jobs) =
   filter (\<lambda>job. semver_compare (version (getSolcConfig job)) v = 0) jobs"
  unfolding sortedCompilationJobs_def
  by (induction jobs) (simp_all add: filter_insertJob)

text \<open>
  C2, as amended. \<^verbatim>\<open>TASK_COMPILE_SOLIDITY_COMPILE_JOBS\<close> brings the jobs into
  the order of \<^verbatim>\<open>compilationJobs.slice().sort(...)\<close>: a permutation of the input,
  ascending in the solc version, in which the jobs whose versions compare equal keep their
  input order. What the compilation of a job gives does not depend on the world it starts
  in. When the compilation of every job of the sorted list, run with that list and the
  job's index in it, returns, the task returns, it has run every input job exactly once, in
  the sorted order, and its result lists the jobs in that order. Otherwise it has run
  exactly the sorted jobs up to and including the first one whose compilation throws or
  never settles, and it ends as that compilation does: the jobs sorted after that one are
  never run.
\<close>

theorem compile_jobs_runs_sorted_jobs_up_to_first_failure:
  "mset (sortedCompilationJobs compilationJobs) = mset compilationJobs \<and>
   sorted_wrt (\<lambda>job1 job2.
       semver_compare (version (getSolcConfig job1)) (version (getSolcConfig job2)) \<le> 0)
     (sortedCompilationJobs compilationJobs) \<and>
   (\<forall>v. filter (\<lambda>job. semver_compare (version (getSolcConfig job)) v = 0)
           (sortedCompilationJobs compilationJobs) =
         filter (\<lambda>job. semver_compare (version (getSolcConfig job)) v = 0) compilationJobs) \<and>
   (\<forall>job jobs i flag w'.
       fst (TASK_COMPILE_SOLIDITY_COMPILE_JOB env job jobs i quiet flag w') =
       fst (TASK_COMPILE_SOLIDITY_COMPILE_JOB env job jobs i quiet flag w)) \<and>
   ((\<forall>i < length (sortedCompilationJobs compilationJobs). \<exists>result.
        fst (TASK_COMPILE_SOLIDITY_COMPILE_JOB env (sortedCompilationJobs compilationJobs ! i)
               (sortedCompilationJobs compilationJobs) i quiet True w) = Returns result) \<longrightarrow>
    (\<exists>artifactsEmittedPerJob.
       fst (TASK_COMPILE_SOLIDITY_COMPILE_JOBS env compilationJobs quiet w) =
         Returns artifactsEmittedPerJob \<and>
       map fst artifactsEmittedPerJob = sortedCompilationJobs compilationJobs) \<and>
    jobsRun (trace (snd (TASK_COMPILE_SOLIDITY_COMPILE_JOBS env compilationJobs quiet w))) =
      jobsRun (trace w) @ sortedCompilationJobs compilationJobs) \<and>
   (\<forall>k < length (sortedCompilationJobs compilationJobs).
      (\<forall>i < k. \<exists>result.
         fst (TASK_COMPILE_SOLIDITY_COMPILE_JOB env (sortedCompilationJobs compilationJobs ! i)
                (sortedCompilationJobs compilationJobs) i quiet True w) = Returns result) \<and>
      (\<forall>result.
         fst (TASK_COMPILE_SOLIDITY_COMPILE_JOB env (sortedCompilationJobs compilationJobs ! k)
                (sortedCompilationJobs compilationJobs) k quiet True w) \<noteq> Returns result) \<longrightarrow>
      jobsRun (trace (snd (TASK_COMPILE_SOLIDITY_COMPILE_JOBS env compilationJobs quiet w))) =
        jobsRun (trace w) @ take (Suc k) (sortedCompilationJobs compilationJobs) \<and>
      (\<forall>e. fst (TASK_COMPILE_SOLIDITY_COMPILE_JOB env
                   (sortedCompilationJobs compilationJobs ! k)
                   (sortedCompilationJobs compilationJobs) k quiet True w) = Throws e \<longrightarrow>
           fst (TASK_COMPILE_SOLIDITY_COMPILE_JOBS env compilationJobs quiet w) = Throws e) \<and>
      (fst (TASK_COMPILE_SOLIDITY_COMPILE_JOB env
              (sortedCompilationJobs compilationJobs ! k)
              (sortedCompilationJobs compilationJobs) k quiet True w) = Pending \<longrightarrow>
         fst (TASK_COMPILE_SOLIDITY_COMPILE_JOBS env compilationJobs quiet w) = Pending))"
proof -
  let ?s = "sortedCompilationJobs compilationJobs"
  let ?r = "compileJobsLoop env ?s quiet ?s 0 [] w"
  let ?t = "TASK_COMPILE_SOLIDITY_COMPILE_JOBS env compilationJobs quiet w"
  let ?job = "\<lambda>i. fst (TASK_COMPILE_SOLIDITY_COMPILE_JOB env (?s ! i) ?s i quiet True w)"
  have empty: "?s = []" if "compilationJobs = []"
    using that by (simp add: sortedCompilationJobs_def)
  have eq: "?t = ?r"
    using empty by (simp add: TASK_COMPILE_SOLIDITY_COMPILE_JOBS_def ret_def)
  have a: "mset ?s = mset compilationJobs"
    by (rule mset_sortedCompilationJobs)
  have b: "sorted_wrt (\<lambda>job1 job2.
       semver_compare (version (getSolcConfig job1)) (version (getSolcConfig job2)) \<le> 0) ?s"
    by (rule sorted_sortedCompilationJobs)
  have c: "\<forall>v. filter (\<lambda>job. semver_compare (version (getSolcConfig job)) v = 0) ?s =
         filter (\<lambda>job. semver_compare (version (getSolcConfig job)) v = 0) compilationJobs"
    by (simp add: filter_sortedCompilationJobs)
  have d: "\<forall>job jobs i flag w'.
       fst (TASK_COMPILE_SOLIDITY_COMPILE_JOB env job jobs i quiet flag w') =
       fst (TASK_COMPILE_SOLIDITY_COMPILE_JOB env job jobs i quiet flag w)"
    using compile_job_outcome by blast
  have e: "(\<exists>out. fst ?t = Returns out \<and> map fst out = ?s) \<and>
      jobsRun (trace (snd ?t)) = jobsRun (trace w) @ ?s"
    if all: "\<forall>i < length ?s. \<exists>result. ?job i = Returns result"
  proof -
    from all have "\<forall>j < length ?s. \<exists>result.
        fst (TASK_COMPILE_SOLIDITY_COMPILE_JOB env (?s ! j) ?s (0 + j) quiet True w) =
          Returns result" by simp
    from compileJobsLoop_all_return [OF this, of "[]" w]
    obtain out where out: "fst ?r = Returns out" by blast
    have 1: "map fst out = ?s"
      using compileJobsLoop_result [OF out] by auto
    obtain k where k: "jobsRun (trace (snd ?r)) = jobsRun (trace w) @ take k ?s"
      "(\<exists>out. fst ?r = Returns out) \<longrightarrow> k = length ?s"
      using compileJobsLoop_jobsRun [of ?s env ?s quiet 0 "[]" w] by blast
    with out have 2: "jobsRun (trace (snd ?r)) = jobsRun (trace w) @ ?s" by simp
    from out 1 2 show ?thesis unfolding eq by blast
  qed
  have f: "jobsRun (trace (snd ?t)) = jobsRun (trace w) @ take (Suc k) ?s \<and>
      (\<forall>e. ?job k = Throws e \<longrightarrow> fst ?t = Throws e) \<and>
      (?job k = Pending \<longrightarrow> fst ?t = Pending)"
    if k: "k < length ?s" and before: "\<forall>i < k. \<exists>result. ?job i = Returns result"
      and fails: "\<forall>result. ?job k \<noteq> Returns result" for k
  proof -
    from before have 1: "\<forall>j < k. \<exists>result.
        fst (TASK_COMPILE_SOLIDITY_COMPILE_JOB env (?s ! j) ?s (0 + j) quiet True w) =
          Returns result" by simp
    from fails have 2: "\<forall>result.
        fst (TASK_COMPILE_SOLIDITY_COMPILE_JOB env (?s ! k) ?s (0 + k) quiet True w) \<noteq>
          Returns result" by simp
    from compileJobsLoop_stops [OF k 1 2, of "[]" w] show ?thesis
      unfolding eq by simp
  qed
  from a b c d e f show ?thesis by blast
qed

lemma sample_job_version: "version (getSolcConfig sample_job) = v0_8_17"
  by (simp add: sample_job_def sample_config_def)

lemma old_job_version: "version (getSolcConfig old_job) = v0_4_10"
  by (simp add: old_job_def)

lemma sample_compile_job:
  assumes "i < length jobs"
  shows "TASK_COMPILE_SOLIDITY_COMPILE_JOB sample_env sample_job jobs i quiet True w =
     (Returns \<lparr>res_artifactsEmittedPerFile = [(sample_A, [''A''])],
        res_compilationJob = sample_job, res_input = sample_input,
        res_output = output_with_warning, res_solcBuild = sample_build\<rparr>,
      w\<lparr>trace := trace w @
        [CompileJob sample_job i,
         GetDownloadedCompilerPath False v0_8_17,
         Exec ''/compilers/solc --version'',
         RunSolc ''/compilers/solc'' sample_input,
         SaveBuildInfo v0_8_17 ''0.8.17+commit.8df45f5f'' sample_input output_with_warning,
         SaveArtifactAndDebugFile
           \<lparr>artifact_sourceName = ''contracts/A.sol'', artifact_contractName = ''A'',
            artifact_output = ''abiA''\<rparr>
           ''/p/artifacts/build-info/1.json'']\<rparr>)"
proof -
  have check: "TASK_COMPILE_SOLIDITY_CHECK_ERRORS output_with_warning quiet = Returns ()"
    by (simp add: TASK_COMPILE_SOLIDITY_CHECK_ERRORS_def hasCompilationErrors_def
        output_with_warning_def sample_warning_def)
  have lv: "longVersion sample_build = ''0.8.17+commit.8df45f5f''"
    by (simp add: sample_build_def)
  show ?thesis
    by (simp add: TASK_COMPILE_SOLIDITY_COMPILE_JOB_def
        TASK_COMPILE_SOLIDITY_GET_COMPILER_INPUT_def TASK_COMPILE_SOLIDITY_COMPILE_def
        sample_job_version sample_compile_solc [OF assms] check emit_artifacts_eq lv
        sample_emitting_files sample_contractEntries sample_saveBuildInfo
        sample_A_sourceName getArtifactFromContractOutput_def task_defs
        sample_input_def [symmetric])
qed

lemma old_compile_job:
  "TASK_COMPILE_SOLIDITY_COMPILE_JOB env old_job jobs i quiet flag w =
     (Throws (COMPILE_TASK_UNSUPPORTED_SOLC_VERSION v0_4_10
                COMPILE_TASK_FIRST_SOLC_VERSION_SUPPORTED),
      w\<lparr>trace := trace w @ [CompileJob old_job i]\<rparr>)"
  by (simp add: TASK_COMPILE_SOLIDITY_COMPILE_JOB_def
      TASK_COMPILE_SOLIDITY_GET_COMPILER_INPUT_def TASK_COMPILE_SOLIDITY_COMPILE_def
      old_job_version compile_solc_old [OF v0_4_10_unsupported] task_defs)

lemma compare_new_old: "\<not> semver_compare v0_8_17 v0_4_10 \<le> 0"
  by (simp add: semver_compare_def compareMain_def compareNumbers_def v0_8_17_def v0_4_10_def)

lemma sorted_sample_old:
  "sortedCompilationJobs [sample_job, old_job] = [old_job, sample_job]"
  by (simp add: sortedCompilationJobs_def sample_job_version old_job_version compare_new_old)

lemma sample_old_distinct: "sample_job \<noteq> old_job"
proof
  assume "sample_job = old_job"
  then have "version (getSolcConfig sample_job) = version (getSolcConfig old_job)" by simp
  then show False
    by (simp add: sample_job_version old_job_version v0_8_17_def v0_4_10_def)
qed

text \<open>
  C2, as stated, fails on a list with a job for solc 0.4.10: that job is sorted first, its
  compilation throws the unsupported-version error, and the job for 0.8.17 is never run.
\<close>

theorem compile_jobs_stops_at_unsupported_version:
  "TASK_COMPILE_SOLIDITY_COMPILE_JOBS sample_env [sample_job, old_job] False sample_world =
     (Throws (COMPILE_TASK_UNSUPPORTED_SOLC_VERSION v0_4_10
                COMPILE_TASK_FIRST_SOLC_VERSION_SUPPORTED),
      sample_world\<lparr>trace := [CompileJob old_job 0]\<rparr>) \<and>
   jobsRun (trace (snd (TASK_COMPILE_SOLIDITY_COMPILE_JOBS sample_env [sample_job, old_job]
      False sample_world))) = [old_job] \<and>
   sample_job \<noteq> old_job"
proof -
  have "TASK_COMPILE_SOLIDITY_COMPILE_JOBS sample_env [sample_job, old_job] False sample_world =
     (Throws (COMPILE_TASK_UNSUPPORTED_SOLC_VERSION v0_4_10
                COMPILE_TASK_FIRST_SOLC_VERSION_SUPPORTED),
      sample_world\<lparr>trace := [CompileJob old_job 0]\<rparr>)"
    by (simp add: TASK_COMPILE_SOLIDITY_COMPILE_JOBS_def sorted_sample_old old_compile_job
        andThen_def sample_world_def)
  then show ?thesis using sample_old_distinct by simp
qed

lemma sample_compile_jobs:
  "TASK_COMPILE_SOLIDITY_COMPILE_JOBS sample_env [sample_job] False sample_world =
     (Returns [(sample_job, [(sample_A, [''A''])])],
      sample_world\<lparr>trace :=
        [CompileJob sample_job 0,
         GetDownloadedCompilerPath False v0_8_17,
         Exec ''/compilers/solc --version'',
         RunSolc ''/compilers/solc'' sample_input,
         SaveBuildInfo v0_8_17 ''0.8.17+commit.8df45f5f'' sample_input output_with_warning,
         SaveArtifactAndDebugFile
           \<lparr>artifact_sourceName = ''contracts/A.sol'', artifact_contractName = ''A'',
            artifact_output = ''abiA''\<rparr>
           ''/p/artifacts/build-info/1.json'']\<rparr>)"
  by (simp add: TASK_COMPILE_SOLIDITY_COMPILE_JOBS_def sortedCompilationJobs_def
      sample_compile_job andThen_def ret_def sample_world_def)

lemma legacy_job_version: "version (getSolcConfig legacy_job) = v0_7_6"
  by (simp add: legacy_job_def)

lemma twin_job_version: "version (getSolcConfig twin_job) = v0_8_17"
  by (simp add: twin_job_def sample_config_def)

lemma v0_7_6_supported: "\<not> semver_lt v0_7_6 COMPILE_TASK_FIRST_SOLC_VERSION_SUPPORTED"
  by (simp add: semver_lt_first_supported v0_7_6_def)

lemma compare_sample_versions:
  "\<not> semver_compare v0_8_17 v0_7_6 \<le> 0" "semver_compare v0_8_17 v0_8_17 \<le> 0"
  by (simp_all add: semver_compare_def compareMain_def comparePre_def compareNumbers_def
      v0_8_17_def v0_7_6_def)

lemma sorted_sample_twin_legacy:
  "sortedCompilationJobs [sample_job, twin_job, legacy_job] =
     [legacy_job, sample_job, twin_job]"
  by (simp add: sortedCompilationJobs_def sample_job_version twin_job_version
      legacy_job_version compare_sample_versions)

lemma native_compile_job_outcome:
  assumes "\<not> semver_lt (version (getSolcConfig job)) COMPILE_TASK_FIRST_SOLC_VERSION_SUPPORTED"
    and "i < length jobs"
    and "getDownloadedCompilerPath env False (version (getSolcConfig job)) =
           Some (solcPath, LINUX)"
    and "exec env (solcPath @ '' --version'') = Exited (Some 0) elapsed"
  shows "(hasCompilationErrors
            (nativeCompile env solcPath (getInputFromCompilationJob job)) \<longrightarrow>
          fst (TASK_COMPILE_SOLIDITY_COMPILE_JOB env job jobs i quiet True w) =
            Throws COMPILE_FAILURE) \<and>
         (\<not> hasCompilationErrors
              (nativeCompile env solcPath (getInputFromCompilationJob job)) \<longrightarrow>
          (\<exists>result. fst (TASK_COMPILE_SOLIDITY_COMPILE_JOB env job jobs i quiet True w) =
             Returns result))"
proof -
  obtain lv desired where b: "getCompilerBuild env (version (getSolcConfig job)) = (lv, desired)"
    by (cases "getCompilerBuild env (version (getSolcConfig job))")
  have g: "TASK_COMPILE_SOLIDITY_GET_SOLC_BUILD env quiet (version (getSolcConfig job)) w' =
      (Returns \<lparr>compilerPath = solcPath, isSolcJs = False,
                build_version = version (getSolcConfig job), longVersion = lv\<rparr>,
       w'\<lparr>trace := trace w' @ [GetDownloadedCompilerPath False (version (getSolcConfig job)),
                                Exec (solcPath @ '' --version'')]\<rparr>)" for w'
    using assms(3,4) b
    by (simp add: TASK_COMPILE_SOLIDITY_GET_SOLC_BUILD_def checkSolcBinary_eq task_defs)
  have c: "fst (TASK_COMPILE_SOLIDITY_COMPILE_SOLC env (getInputFromCompilationJob job) quiet
      (version (getSolcConfig job)) job jobs i w') =
      Returns (nativeCompile env solcPath (getInputFromCompilationJob job),
        \<lparr>compilerPath = solcPath, isSolcJs = False,
         build_version = version (getSolcConfig job), longVersion = lv\<rparr>)" for w'
    using assms(1,2)
    by (simp add: TASK_COMPILE_SOLIDITY_COMPILE_SOLC_def g TASK_COMPILE_SOLIDITY_RUN_SOLC_def
        task_defs TASK_COMPILE_SOLIDITY_LOG_RUN_COMPILER_START_def
        TASK_COMPILE_SOLIDITY_LOG_RUN_COMPILER_END_def)
  show ?thesis
    by (simp add: TASK_COMPILE_SOLIDITY_COMPILE_JOB_def andThen_cases emit_def ret_def
        liftOutcome_def TASK_COMPILE_SOLIDITY_GET_COMPILER_INPUT_def
        TASK_COMPILE_SOLIDITY_COMPILE_def c emit_artifacts_eq
        TASK_COMPILE_SOLIDITY_CHECK_ERRORS_def)
qed


lemma sample_env_answers:
  "getDownloadedCompilerPath sample_env False v = Some (''/compilers/solc'', LINUX)"
  "exec sample_env command = Exited (Some 0) 25"
  "nativeCompile sample_env solcPath input = output_with_warning"
  by (simp_all add: sample_env_def)

lemma failing_env_answers:
  "getDownloadedCompilerPath failing_env False v = Some (''/compilers/solc'', LINUX)"
  "exec failing_env command = Exited (Some 0) 25"
  "nativeCompile failing_env solcPath sample_input = output_with_error"
  "nativeCompile failing_env solcPath (getInputFromCompilationJob legacy_job) =
     output_with_warning"
  by (simp_all add: failing_env_def sample_env_def sample_input_def
      getInputFromCompilationJob_def sample_job_def legacy_job_def)

lemma sample_outputs_errors:
  "\<not> hasCompilationErrors output_with_warning" "hasCompilationErrors output_with_error"
  by (simp_all add: hasCompilationErrors_def output_with_warning_def output_with_error_def
      sample_warning_def sample_error_def)

lemma sample_env_compile_job:
  assumes "\<not> semver_lt (version (getSolcConfig job)) COMPILE_TASK_FIRST_SOLC_VERSION_SUPPORTED"
    and "i < length jobs"
  shows "\<exists>result. fst (TASK_COMPILE_SOLIDITY_COMPILE_JOB sample_env job jobs i quiet True w) =
           Returns result"
  using native_compile_job_outcome [OF assms sample_env_answers(1) sample_env_answers(2),
      of quiet w]
  by (simp add: sample_env_answers(3) sample_outputs_errors)

lemma failing_env_legacy_job:
  assumes "i < length jobs"
  shows "\<exists>result. fst (TASK_COMPILE_SOLIDITY_COMPILE_JOB failing_env legacy_job jobs i quiet
           True w) = Returns result"
proof -
  have "\<not> semver_lt (version (getSolcConfig legacy_job))
      COMPILE_TASK_FIRST_SOLC_VERSION_SUPPORTED"
    by (simp add: legacy_job_version v0_7_6_supported)
  from native_compile_job_outcome [OF this assms failing_env_answers(1)
      failing_env_answers(2), of quiet w]
  show ?thesis
    by (simp add: failing_env_answers(4) sample_outputs_errors)
qed

lemma failing_env_sample_job:
  assumes "i < length jobs"
  shows "fst (TASK_COMPILE_SOLIDITY_COMPILE_JOB failing_env sample_job jobs i quiet True w) =
           Throws COMPILE_FAILURE"
proof -
  have "\<not> semver_lt (version (getSolcConfig sample_job))
      COMPILE_TASK_FIRST_SOLC_VERSION_SUPPORTED"
    by (simp add: sample_job_version v0_8_17_supported)
  from native_compile_job_outcome [OF this assms failing_env_answers(1)
      failing_env_answers(2), of quiet w]
  show ?thesis
    by (simp add: failing_env_answers(3) sample_outputs_errors sample_input_def [symmetric])
qed

lemma sample_twin_distinct: "sample_job \<noteq> twin_job"
proof
  assume "sample_job = twin_job"
  then have "getResolvedFiles sample_job = getResolvedFiles twin_job" by simp
  then show False by (simp add: sample_job_def twin_job_def)
qed

theorem compile_jobs_witness:
  "sortedCompilationJobs [sample_job, twin_job, legacy_job] =
     [legacy_job, sample_job, twin_job] \<and>
   sample_job \<noteq> twin_job \<and>
   (\<exists>artifactsEmittedPerJob.
      fst (TASK_COMPILE_SOLIDITY_COMPILE_JOBS sample_env [sample_job, twin_job, legacy_job]
             False sample_world) = Returns artifactsEmittedPerJob \<and>
      map fst artifactsEmittedPerJob = [legacy_job, sample_job, twin_job]) \<and>
   jobsRun (trace (snd (TASK_COMPILE_SOLIDITY_COMPILE_JOBS sample_env
      [sample_job, twin_job, legacy_job] False sample_world))) =
     [legacy_job, sample_job, twin_job] \<and>
   fst (TASK_COMPILE_SOLIDITY_COMPILE_JOBS failing_env [sample_job, twin_job, legacy_job]
          False sample_world) = Throws COMPILE_FAILURE \<and>
   jobsRun (trace (snd (TASK_COMPILE_SOLIDITY_COMPILE_JOBS failing_env
      [sample_job, twin_job, legacy_job] False sample_world))) = [legacy_job, sample_job]"
proof -
  let ?jobs = "[sample_job, twin_job, legacy_job]"
  let ?s = "[legacy_job, sample_job, twin_job]"
  note s = sorted_sample_twin_legacy
  have supported: "\<not> semver_lt (version (getSolcConfig (?s ! i)))
      COMPILE_TASK_FIRST_SOLC_VERSION_SUPPORTED" if "i < 3" for i
  proof -
    from that have "i = 0 \<or> i = 1 \<or> i = 2" by arith
    then show ?thesis
      by (auto simp: legacy_job_version sample_job_version twin_job_version
          v0_7_6_supported v0_8_17_supported)
  qed
  have all: "\<forall>i < length (sortedCompilationJobs ?jobs). \<exists>result.
      fst (TASK_COMPILE_SOLIDITY_COMPILE_JOB sample_env (sortedCompilationJobs ?jobs ! i)
             (sortedCompilationJobs ?jobs) i False True sample_world) = Returns result"
    unfolding s
  proof (intro allI impI)
    fix i assume i: "i < length ?s"
    then have "i < 3" by simp
    from sample_env_compile_job [OF supported [OF this] i]
    show "\<exists>result. fst (TASK_COMPILE_SOLIDITY_COMPILE_JOB sample_env (?s ! i) ?s i False True
        sample_world) = Returns result" .
  qed
  note good = compile_jobs_runs_sorted_jobs_up_to_first_failure
      [of ?jobs sample_env False sample_world,
       THEN conjunct2, THEN conjunct2, THEN conjunct2, THEN conjunct2, THEN conjunct1,
       THEN mp, OF all]
  have 1: "\<exists>artifactsEmittedPerJob.
      fst (TASK_COMPILE_SOLIDITY_COMPILE_JOBS sample_env ?jobs False sample_world) =
        Returns artifactsEmittedPerJob \<and>
      map fst artifactsEmittedPerJob = ?s"
    using good [THEN conjunct1] unfolding s .
  have 2: "jobsRun (trace (snd (TASK_COMPILE_SOLIDITY_COMPILE_JOBS sample_env ?jobs False
      sample_world))) = ?s"
    using good [THEN conjunct2] unfolding s by (simp add: sample_world_def)
  have before: "\<forall>i < 1. \<exists>result.
      fst (TASK_COMPILE_SOLIDITY_COMPILE_JOB failing_env (sortedCompilationJobs ?jobs ! i)
             (sortedCompilationJobs ?jobs) i False True sample_world) = Returns result"
    unfolding s using failing_env_legacy_job [of 0 ?s False sample_world] by simp
  have at: "fst (TASK_COMPILE_SOLIDITY_COMPILE_JOB failing_env
      (sortedCompilationJobs ?jobs ! 1) (sortedCompilationJobs ?jobs) 1 False True
      sample_world) = Throws COMPILE_FAILURE"
    unfolding s using failing_env_sample_job [of 1 ?s False sample_world] by simp
  then have fails: "\<forall>result. fst (TASK_COMPILE_SOLIDITY_COMPILE_JOB failing_env
      (sortedCompilationJobs ?jobs ! 1) (sortedCompilationJobs ?jobs) 1 False True
      sample_world) \<noteq> Returns result"
    by simp
  have k: "1 < length (sortedCompilationJobs ?jobs)"
    unfolding s by simp
  note bad = compile_jobs_runs_sorted_jobs_up_to_first_failure
      [of ?jobs failing_env False sample_world,
       THEN conjunct2, THEN conjunct2, THEN conjunct2, THEN conjunct2, THEN conjunct2,
       THEN spec, of 1, THEN mp, OF k, THEN mp, OF conjI [OF before fails]]
  have 3: "fst (TASK_COMPILE_SOLIDITY_COMPILE_JOBS failing_env ?jobs False sample_world) =
      Throws COMPILE_FAILURE"
    using bad [THEN conjunct2, THEN conjunct1, THEN spec, of COMPILE_FAILURE, THEN mp, OF at] .
  have 4: "jobsRun (trace (snd (TASK_COMPILE_SOLIDITY_COMPILE_JOBS failing_env ?jobs False
      sample_world))) = [legacy_job, sample_job]"
    using bad [THEN conjunct1] unfolding s by (simp add: sample_world_def)
  from s sample_twin_distinct 1 2 3 4 show ?thesis by blast
qed


subsection \<open>The cache after a successful build\<close>

lemma updateCacheFiles_entry:
  assumes "\<forall>(f, arts) \<in> set perFile. absolutePath f = p \<longrightarrow>
             contentHash f = h \<and> getSolcConfig job = c"
    and "(\<exists>(f, arts) \<in> set perFile. absolutePath f = p) \<or>
         (\<exists>e. cache p = Some e \<and> entry_contentHash e = h \<and> entry_solcConfig e = c)"
  shows "\<exists>e. updateCacheFiles job cache perFile p = Some e \<and>
           entry_contentHash e = h \<and> entry_solcConfig e = c"
  using assms
proof (induction perFile arbitrary: cache)
  case Nil
  then show ?case by simp
next
  case (Cons x xs)
  obtain f arts where x: "x = (f, arts)" by (cases x)
  let ?cache = "addFile cache (absolutePath f)
          \<lparr>entry_lastModificationDate = lastModificationDate f,
           entry_contentHash = contentHash f,
           entry_sourceName = sourceName f,
           entry_solcConfig = getSolcConfig job,
           entry_imports = content_imports f,
           entry_versionPragmas = content_versionPragmas f,
           entry_artifacts = arts\<rparr>"
  have 1: "\<forall>(f, arts) \<in> set xs. absolutePath f = p \<longrightarrow>
             contentHash f = h \<and> getSolcConfig job = c"
    using Cons.prems(1) by simp
  have 2: "(\<exists>(f, arts) \<in> set xs. absolutePath f = p) \<or>
         (\<exists>e. ?cache p = Some e \<and> entry_contentHash e = h \<and> entry_solcConfig e = c)"
    using Cons.prems x by (auto simp: addFile_def)
  show ?case
    unfolding x using Cons.IH [of ?cache] 1 2 by simp
qed

lemma updateCacheFiles_other:
  "\<forall>(f, arts) \<in> set perFile. absolutePath f \<noteq> p \<Longrightarrow>
   updateCacheFiles job cache perFile p = cache p"
  by (induction perFile arbitrary: cache) (auto simp: addFile_def)

lemma updateCacheJobs_entry:
  assumes "\<forall>(job, perFile) \<in> set perJob. \<forall>(f, arts) \<in> set perFile.
             absolutePath f = p \<longrightarrow> contentHash f = h \<and> getSolcConfig job = c"
    and "(\<exists>(job, perFile) \<in> set perJob. \<exists>(f, arts) \<in> set perFile. absolutePath f = p) \<or>
         (\<exists>e. cache p = Some e \<and> entry_contentHash e = h \<and> entry_solcConfig e = c)"
  shows "\<exists>e. updateCacheJobs cache perJob p = Some e \<and>
           entry_contentHash e = h \<and> entry_solcConfig e = c"
  using assms
proof (induction perJob arbitrary: cache)
  case Nil
  then show ?case by simp
next
  case (Cons x xs)
  obtain job perFile where x: "x = (job, perFile)" by (cases x)
  have 1: "\<forall>(job, perFile) \<in> set xs. \<forall>(f, arts) \<in> set perFile.
             absolutePath f = p \<longrightarrow> contentHash f = h \<and> getSolcConfig job = c"
    using Cons.prems(1) by simp
  have here: "\<forall>(f, arts) \<in> set perFile. absolutePath f = p \<longrightarrow>
             contentHash f = h \<and> getSolcConfig job = c"
    using Cons.prems(1) x by simp
  have 2: "(\<exists>(job, perFile) \<in> set xs. \<exists>(f, arts) \<in> set perFile. absolutePath f = p) \<or>
         (\<exists>e. updateCacheFiles job cache perFile p = Some e \<and>
             entry_contentHash e = h \<and> entry_solcConfig e = c)"
  proof (cases "\<exists>(job, perFile) \<in> set xs. \<exists>(f, arts) \<in> set perFile. absolutePath f = p")
    case True
    then show ?thesis by blast
  next
    case False
    with Cons.prems(2) x have
      "(\<exists>(f, arts) \<in> set perFile. absolutePath f = p) \<or>
       (\<exists>e. cache p = Some e \<and> entry_contentHash e = h \<and> entry_solcConfig e = c)"
      by auto
    with updateCacheFiles_entry [of perFile p h job c cache] here show ?thesis by blast
  qed
  show ?case
    unfolding x using Cons.IH [of "updateCacheFiles job cache perFile"] 1 2 by simp
qed

lemma compile_solidity_returns:
  assumes "TASK_COMPILE_SOLIDITY env force quiet w = (Returns (), w')"
  shows "\<exists>out w1.
     TASK_COMPILE_SOLIDITY_COMPILE_JOBS env (mergedCompilationJobs env force w) quiet w =
       (Returns out, w1) \<and>
     cacheFile w' =
       updateCacheJobs
         (invalidateCacheMissingArtifacts (cacheFile w) (artifactExists env)
            (graphResolvedFiles env)) out \<and>
     trace w' = trace w1 @ [RemoveObsoleteArtifacts, RemoveObsoleteBuildInfos]"
proof -
  let ?cache = "invalidateCacheMissingArtifacts (cacheFile w) (artifactExists env)
            (graphResolvedFiles env)"
  let ?f = "TASK_COMPILE_SOLIDITY_FILTER_COMPILATION_JOBS
      (fst (TASK_COMPILE_SOLIDITY_GET_COMPILATION_JOBS env)) force (Some ?cache)"
  obtain filtered where f: "?f = Returns filtered"
    by (cases force) (simp_all add: TASK_COMPILE_SOLIDITY_FILTER_COMPILATION_JOBS_def)
  have m: "mergedCompilationJobs env force w =
      TASK_COMPILE_SOLIDITY_MERGE_COMPILATION_JOBS env filtered"
    using f by (simp add: mergedCompilationJobs_def Let_def)
  let ?c = "TASK_COMPILE_SOLIDITY_COMPILE_JOBS env (mergedCompilationJobs env force w) quiet w"
  show ?thesis
  proof (cases "fst ?c")
    case (Returns out)
    then have c: "?c = (Returns out, snd ?c)" by (metis prod.collapse)
    from assms show ?thesis
      using f c unfolding m
      by (auto simp: TASK_COMPILE_SOLIDITY_def Let_def andThen_def liftOutcome_def
          emit_def split: Outcome.splits prod.splits)
  next
    case (Throws e)
    then have c: "?c = (Throws e, snd ?c)" by (metis prod.collapse)
    from assms show ?thesis
      using f c unfolding m
      by (auto simp: TASK_COMPILE_SOLIDITY_def Let_def andThen_def liftOutcome_def
          emit_def split: Outcome.splits prod.splits)
  next
    case Pending
    then have c: "?c = (Pending, snd ?c)" by (metis prod.collapse)
    from assms show ?thesis
      using f c unfolding m
      by (auto simp: TASK_COMPILE_SOLIDITY_def Let_def andThen_def liftOutcome_def
          emit_def split: Outcome.splits prod.splits)
  qed
qed

text \<open>
  C8. When \<^verbatim>\<open>TASK_COMPILE_SOLIDITY\<close> returns, every job handed to the compile step
  has been run, and for every file a job emits artifacts for, the cache file written at the
  end has an entry at the file's absolute path with the file's content hash and that job's
  solc config; provided the file is compiled by that job only (any job emitting artifacts
  for a file at the same absolute path has the same content hash and config), which is
  what the job planner gives.
\<close>

theorem successful_build_caches_hash_and_config:
  assumes "TASK_COMPILE_SOLIDITY env force quiet w = (Returns (), w')"
    and "job \<in> set (mergedCompilationJobs env force w)"
    and "file \<in> set (getResolvedFiles job)"
    and "emitsArtifacts job file"
    and "\<forall>job' \<in> set (mergedCompilationJobs env force w).
           \<forall>file' \<in> set (getResolvedFiles job').
             emitsArtifacts job' file' \<and> absolutePath file' = absolutePath file \<longrightarrow>
             contentHash file' = contentHash file \<and> getSolcConfig job' = getSolcConfig job"
  shows "job \<in> set (jobsRun (trace w')) \<and>
     (\<exists>cacheEntry. cacheFile w' (absolutePath file) = Some cacheEntry \<and>
        entry_contentHash cacheEntry = contentHash file \<and>
        entry_solcConfig cacheEntry = getSolcConfig job)"
proof -
  let ?jobs = "mergedCompilationJobs env force w"
  let ?cache = "invalidateCacheMissingArtifacts (cacheFile w) (artifactExists env)
            (graphResolvedFiles env)"
  from compile_solidity_returns [OF assms(1)] obtain out w1 where
    c: "TASK_COMPILE_SOLIDITY_COMPILE_JOBS env ?jobs quiet w = (Returns out, w1)"
    and cache: "cacheFile w' = updateCacheJobs ?cache out"
    and tr: "trace w' = trace w1 @ [RemoveObsoleteArtifacts, RemoveObsoleteBuildInfos]"
    by blast
  have ne: "?jobs \<noteq> []" using assms(2) by auto
  let ?s = "sortedCompilationJobs ?jobs"
  have loop: "compileJobsLoop env ?s quiet ?s 0 [] w = (Returns out, w1)"
    using c ne by (simp add: TASK_COMPILE_SOLIDITY_COMPILE_JOBS_def)
  from compileJobsLoop_result [of env ?s quiet ?s 0 "[]" w out] loop
  have out: "map fst out = ?s"
    "\<forall>(job, perFile) \<in> set out.
        map fst perFile = filter (emitsArtifacts job) (getResolvedFiles job)"
    by auto
  have sets: "set ?s = set ?jobs"
    using mset_sortedCompilationJobs [of ?jobs] by (metis set_mset_mset)
  obtain k where k: "jobsRun (trace w1) = jobsRun (trace w) @ take k ?s" "k = length ?s"
    using compileJobsLoop_jobsRun [of ?s env ?s quiet 0 "[]" w] loop by auto
  have run: "job \<in> set (jobsRun (trace w'))"
    using k tr sets assms(2) by (simp add: jobsRun_append)
  have "job \<in> fst ` set out"
    using out(1) sets assms(2) by (metis set_map)
  then obtain perFile where pf: "(job, perFile) \<in> set out" by auto
  with out(2) have "map fst perFile = filter (emitsArtifacts job) (getResolvedFiles job)"
    by auto
  then have "set (map fst perFile) = {f \<in> set (getResolvedFiles job). emitsArtifacts job f}"
    by simp
  with assms(3,4) have "file \<in> fst ` set perFile" by simp
  then obtain arts where "(file, arts) \<in> set perFile" by auto
  with pf have ex: "\<exists>(job, perFile) \<in> set out. \<exists>(f, arts) \<in> set perFile.
      absolutePath f = absolutePath file"
    by blast
  have all: "\<forall>(job', perFile) \<in> set out. \<forall>(f, arts) \<in> set perFile.
      absolutePath f = absolutePath file \<longrightarrow>
      contentHash f = contentHash file \<and> getSolcConfig job' = getSolcConfig job"
  proof (clarify)
    fix job' perFile' f arts'
    assume a: "(job', perFile') \<in> set out" "(f, arts') \<in> set perFile'"
      "absolutePath f = absolutePath file"
    from a(1) out(1) sets have j: "job' \<in> set ?jobs" by (metis fst_conv image_eqI set_map)
    from a(1) out(2) have "map fst perFile' =
        filter (emitsArtifacts job') (getResolvedFiles job')" by auto
    with a(2) have "f \<in> set (filter (emitsArtifacts job') (getResolvedFiles job'))"
      by (metis fst_conv image_eqI set_map)
    then have "f \<in> set (getResolvedFiles job')" "emitsArtifacts job' f" by auto
    with assms(5) j a(3) show "contentHash f = contentHash file \<and>
        getSolcConfig job' = getSolcConfig job" by blast
  qed
  from updateCacheJobs_entry [of out "absolutePath file" "contentHash file"
      "getSolcConfig job" ?cache] all ex
  have "\<exists>e. updateCacheJobs ?cache out (absolutePath file) = Some e \<and>
      entry_contentHash e = contentHash file \<and> entry_solcConfig e = getSolcConfig job"
    by blast
  with run cache show ?thesis by simp
qed

lemma sample_merged:
  "mergedCompilationJobs sample_env False sample_world = [sample_job]"
proof -
  have "needsCompilation sample_job Map.empty"
    by (simp add: needsCompilation_def sample_job_def hasFileChanged_def getEntry_def Let_def)
  then show ?thesis
    by (simp add: mergedCompilationJobs_def sample_env_def sample_world_def getEntry_def
        TASK_COMPILE_SOLIDITY_GET_COMPILATION_JOBS_def
        TASK_COMPILE_SOLIDITY_FILTER_COMPILATION_JOBS_def
        TASK_COMPILE_SOLIDITY_MERGE_COMPILATION_JOBS_def)
qed

lemma sample_build_returns:
  "fst (TASK_COMPILE_SOLIDITY sample_env False False sample_world) = Returns ()"
proof -
  have n: "needsCompilation sample_job Map.empty"
    by (simp add: needsCompilation_def sample_job_def hasFileChanged_def getEntry_def Let_def)
  have i: "invalidateCacheMissingArtifacts (cacheFile sample_world) (artifactExists sample_env)
      (graphResolvedFiles sample_env) = Map.empty"
    by (simp add: sample_env_def sample_world_def getEntry_def)
  have g: "TASK_COMPILE_SOLIDITY_GET_COMPILATION_JOBS sample_env = ([sample_job], [])"
    by (simp add: TASK_COMPILE_SOLIDITY_GET_COMPILATION_JOBS_def sample_env_def)
  have m: "TASK_COMPILE_SOLIDITY_MERGE_COMPILATION_JOBS sample_env jobs = jobs" for jobs
    by (simp add: TASK_COMPILE_SOLIDITY_MERGE_COMPILATION_JOBS_def sample_env_def)
  show ?thesis
    by (simp add: TASK_COMPILE_SOLIDITY_def i g m n
        TASK_COMPILE_SOLIDITY_HANDLE_COMPILATION_JOBS_FAILURES_def
        TASK_COMPILE_SOLIDITY_FILTER_COMPILATION_JOBS_def
        sample_compile_jobs andThen_def liftOutcome_def emit_def)
qed

theorem successful_build_witness:
  "fst (TASK_COMPILE_SOLIDITY sample_env False False sample_world) = Returns () \<and>
   cacheFile sample_world ''/p/contracts/A.sol'' = None \<and>
   (\<exists>cacheEntry.
      cacheFile (snd (TASK_COMPILE_SOLIDITY sample_env False False sample_world))
        ''/p/contracts/A.sol'' = Some cacheEntry \<and>
      entry_contentHash cacheEntry = ''hashA'' \<and>
      entry_solcConfig cacheEntry = sample_config)"
proof -
  let ?w' = "snd (TASK_COMPILE_SOLIDITY sample_env False False sample_world)"
  have 1: "TASK_COMPILE_SOLIDITY sample_env False False sample_world = (Returns (), ?w')"
    using sample_build_returns by (metis prod.collapse)
  have 2: "sample_job \<in> set (mergedCompilationJobs sample_env False sample_world)"
    by (simp add: sample_merged)
  have 3: "sample_A \<in> set (getResolvedFiles sample_job)"
    by (simp add: sample_job_def)
  have 4: "emitsArtifacts sample_job sample_A"
    by (simp add: sample_job_def sample_A_def)
  have 5: "\<forall>job' \<in> set (mergedCompilationJobs sample_env False sample_world).
           \<forall>file' \<in> set (getResolvedFiles job').
             emitsArtifacts job' file' \<and> absolutePath file' = absolutePath sample_A \<longrightarrow>
             contentHash file' = contentHash sample_A \<and>
             getSolcConfig job' = getSolcConfig sample_job"
    by (simp add: sample_merged sample_job_def sample_A_def sample_B_def)
  from successful_build_caches_hash_and_config [OF 1 2 3 4 5]
  have "\<exists>cacheEntry. cacheFile ?w' (absolutePath sample_A) = Some cacheEntry \<and>
        entry_contentHash cacheEntry = contentHash sample_A \<and>
        entry_solcConfig cacheEntry = getSolcConfig sample_job"
    by blast
  then have "\<exists>cacheEntry. cacheFile ?w' ''/p/contracts/A.sol'' = Some cacheEntry \<and>
        entry_contentHash cacheEntry = ''hashA'' \<and>
        entry_solcConfig cacheEntry = sample_config"
    by (simp add: sample_A_def sample_job_def)
  moreover have "cacheFile sample_world ''/p/contracts/A.sol'' = None"
    by (simp add: sample_world_def)
  ultimately show ?thesis using sample_build_returns by blast
qed

end
